theory Spec2Isabelle
  imports Complex_Main "HOL-Library.Word"
begin

section \<open>JavaScript strings\<close>

text \<open>
  A JavaScript string is a sequence of UTF-16 code units; \<open>charCodeAt\<close>, \<open>length\<close>,
  \<open>trim\<close>, \<open>split\<close> and the regular expressions of the source all work on code units.
  A code unit is modelled by its number. String literals of the source that are plain
  ASCII are written \<open>S ''...''\<close>; the Vietnamese literals are given by their code units,
  with a transliteration beside them.
\<close>

type_synonym jstring = "nat list"

abbreviation (input) S :: "string \<Rightarrow> jstring" where
  "S s \<equiv> map of_char s"

text \<open>
  The code units that \<open>String.prototype.trim\<close> strips and the class \<open>\s\<close> matches:
  ECMAScript's WhiteSpace and LineTerminator (TAB, LF, VT, FF, CR, SP, NBSP, U+1680,
  U+2000..U+200A, LS, PS, U+202F, U+205F, U+3000, U+FEFF).
\<close>

definition is_space :: "nat \<Rightarrow> bool" where
  "is_space c =
     (c = 9 \<or> c = 10 \<or> c = 11 \<or> c = 12 \<or> c = 13 \<or> c = 32 \<or> c = 160 \<or> c = 5760
      \<or> (8192 \<le> c \<and> c \<le> 8202)
      \<or> c = 8232 \<or> c = 8233 \<or> c = 8239 \<or> c = 8287 \<or> c = 12288 \<or> c = 65279)"

text \<open>\<open>s.trim()\<close>\<close>

definition trim :: "jstring \<Rightarrow> jstring" where
  "trim s = rev (dropWhile is_space (rev (dropWhile is_space s)))"

text \<open>\<open>s.replace(/(\r\n|\n|\r)/gm, " ")\<close>: a CR LF pair becomes one space, a lone CR or LF
  becomes one space.\<close>

fun replaceLineBreaks :: "jstring \<Rightarrow> jstring" where
  "replaceLineBreaks [] = []"
| "replaceLineBreaks [c] = (if c = 13 \<or> c = 10 then [32] else [c])"
| "replaceLineBreaks (c # d # cs) =
     (if c = 13 \<and> d = 10 then 32 # replaceLineBreaks cs
      else if c = 13 \<or> c = 10 then 32 # replaceLineBreaks (d # cs)
      else c # replaceLineBreaks (d # cs))"

text \<open>\<open>s.replace(/\s+/g, " ")\<close>: every maximal run of white space becomes one space.\<close>

function collapseWs :: "jstring \<Rightarrow> jstring" where
  "collapseWs [] = []"
| "collapseWs (c # cs) =
     (if is_space c then 32 # collapseWs (dropWhile is_space cs) else c # collapseWs cs)"
  by pat_completeness auto
termination
  by (relation "measure length") (auto simp: length_dropWhile_le less_Suc_eq_le)

text \<open>
  \<open>cleanForJson\<close> (src/services/geminiService.ts, lines 73-77, and the identical copy in
  src/App.tsx, lines 297-300). The argument is \<open>string | undefined | null\<close>: \<open>None\<close> stands
  for undefined and null; \<open>!text\<close> also holds of the empty string.
\<close>

definition cleanForJson :: "jstring option \<Rightarrow> jstring" where
  "cleanForJson text =
     (case text of
        None \<Rightarrow> []
      | Some t \<Rightarrow> if t = [] then [] else trim (collapseWs (replaceLineBreaks t)))"

subsection \<open>Observations on strings used in the statements\<close>

text \<open>Two neighbouring code units that are both white space.\<close>

fun adjacent_ws :: "jstring \<Rightarrow> bool" where
  "adjacent_ws (a # b # cs) = ((is_space a \<and> is_space b) \<or> adjacent_ws (b # cs))"
| "adjacent_ws _ = False"

definition starts_ws :: "jstring \<Rightarrow> bool" where
  "starts_ws s = (case s of [] \<Rightarrow> False | c # _ \<Rightarrow> is_space c)"

definition ends_ws :: "jstring \<Rightarrow> bool" where
  "ends_ws s = starts_ws (rev s)"

definition has_line_break :: "jstring \<Rightarrow> bool" where
  "has_line_break s = (10 \<in> set s \<or> 13 \<in> set s)"

section \<open>KeyCodec: the offline license key (src/App.tsx, lines 64-91)\<close>

text \<open>\<open>const APP_SECRET = 'SECRET_KEY_BRIDGE_8823_HASH'\<close>\<close>

definition APP_SECRET :: jstring where
  "APP_SECRET = S ''SECRET_KEY_BRIDGE_8823_HASH''"

text \<open>
  The loop of \<open>simpleHash\<close>: \<open>hash = ((hash << 5) - hash) + char; hash = hash & hash\<close>.
  \<open>&\<close> brings the sum back to a signed 32-bit integer, so the accumulator is a 32-bit
  word and the arithmetic wraps.
\<close>

definition hashStep :: "32 word \<Rightarrow> nat \<Rightarrow> 32 word" where
  "hashStep hash char = (push_bit 5 hash - hash) + of_nat char"

definition hexDigit :: "nat \<Rightarrow> nat" where
  "hexDigit d = (if d < 10 then 48 + d else 87 + d)"

text \<open>\<open>n.toString(16)\<close> of a non-negative integer: lower-case digits, no leading zero.\<close>

function toHex :: "nat \<Rightarrow> jstring" where
  "toHex n = (if n < 16 then [hexDigit n] else toHex (n div 16) @ [hexDigit (n mod 16)])"
  by pat_completeness auto
termination
  by (relation "measure id") auto

declare toHex.simps [simp del]

text \<open>\<open>Math.abs(hash).toString(16)\<close>: the absolute value of the signed reading; for
  \<open>-2^31\<close> it is \<open>2^31\<close>, a number, not a 32-bit integer.\<close>

definition simpleHash :: "jstring \<Rightarrow> jstring" where
  "simpleHash str = toHex (nat \<bar>sint (foldl hashStep 0 str)\<bar>)"

text \<open>
  \<open>s.toUpperCase()\<close> on Basic Latin. The source applies it to the hexadecimal digits of
  \<open>simpleHash\<close>, where this is all of it, and to the typed license key; code units
  outside Basic Latin are left as they are.
\<close>

definition toUpperCase :: "jstring \<Rightarrow> jstring" where
  "toUpperCase s = map (\<lambda>c. if 97 \<le> c \<and> c \<le> 122 then c - 32 else c) s"

text \<open>\<open>s.split(sep)\<close> for a separator of one code unit; \<open>"".split(sep)\<close> is \<open>[""]\<close>.\<close>

fun split :: "nat \<Rightarrow> jstring \<Rightarrow> jstring list" where
  "split sep [] = [[]]"
| "split sep (c # cs) =
     (if c = sep then [] # split sep cs
      else (case split sep cs of [] \<Rightarrow> [[c]] | p # ps \<Rightarrow> (c # p) # ps))"

text \<open>
  \<open>parseInt(s, radix)\<close> for radix 10 and 16: leading white space is skipped, then an
  optional sign, then (radix 16 only) an optional \<open>0x\<close> or \<open>0X\<close>, then the longest run
  of digits of the radix; no digit gives NaN, here \<open>None\<close>. The value is kept exact:
  JavaScript rounds it to a double above \<open>2^53\<close>, which no comparison with a time stamp
  or a scene count below \<open>2^53\<close> can observe.
\<close>

definition digitVal :: "nat \<Rightarrow> nat" where
  "digitVal c =
     (if 48 \<le> c \<and> c \<le> 57 then c - 48
      else if 97 \<le> c \<and> c \<le> 122 then c - 87
      else if 65 \<le> c \<and> c \<le> 90 then c - 55
      else 36)"

definition isDigitOf :: "nat \<Rightarrow> nat \<Rightarrow> bool" where
  "isDigitOf radix c = (digitVal c < radix)"

definition digitsValue :: "nat \<Rightarrow> jstring \<Rightarrow> nat" where
  "digitsValue radix ds = foldl (\<lambda>acc c. acc * radix + digitVal c) 0 ds"

definition stripSign :: "jstring \<Rightarrow> int \<times> jstring" where
  "stripSign s =
     (case s of
        [] \<Rightarrow> (1, [])
      | c # cs \<Rightarrow> if c = 45 then (- 1, cs) else if c = 43 then (1, cs) else (1, s))"

definition stripHexPrefix :: "nat \<Rightarrow> jstring \<Rightarrow> jstring" where
  "stripHexPrefix radix s =
     (case s of
        c # d # cs \<Rightarrow> if radix = 16 \<and> c = 48 \<and> (d = 120 \<or> d = 88) then cs else s
      | _ \<Rightarrow> s)"

definition parseInt :: "jstring \<Rightarrow> nat \<Rightarrow> int option" where
  "parseInt s radix =
     (let (sign, r) = stripSign (dropWhile is_space s);
          ds = takeWhile (isDigitOf radix) (stripHexPrefix radix r)
      in if ds = [] then None else Some (sign * int (digitsValue radix ds)))"

text \<open>The result of \<open>verifyKeyOffline\<close>: \<open>{valid: true}\<close> or \<open>{valid: false, message}\<close>.\<close>

datatype verdict = KeyValid | KeyInvalid jstring

fun valid :: "verdict \<Rightarrow> bool" where
  "valid KeyValid = True"
| "valid (KeyInvalid m) = False"

text \<open>The messages: "Sai dinh dang.", "Key khong hop le.", "Key da het han."\<close>

definition msg_bad_format :: jstring where
  "msg_bad_format = [83, 97, 105, 32, 273, 7883, 110, 104, 32, 100, 7841, 110, 103, 46]"

definition msg_bad_signature :: jstring where
  "msg_bad_signature =
     [75, 101, 121, 32, 107, 104, 244, 110, 103, 32, 104, 7907, 112, 32, 108, 7879, 46]"

definition msg_expired :: jstring where
  "msg_expired = [75, 101, 121, 32, 273, 227, 32, 104, 7871, 116, 32, 104, 7841, 110, 46]"

text \<open>Line 79: \<open>simpleHash(expHex + '-' + typeCode + APP_SECRET).toUpperCase()\<close>.\<close>

definition expectedSig :: "jstring \<Rightarrow> jstring \<Rightarrow> jstring" where
  "expectedSig expHex typeCode = toUpperCase (simpleHash (expHex @ S ''-'' @ typeCode @ APP_SECRET))"

text \<open>
  \<open>verifyKeyOffline\<close>, with \<open>Date.now()\<close> as the argument \<open>now\<close>. The comparison
  \<open>Date.now() > expiresAt\<close> is false when \<open>expiresAt\<close> is NaN. Nothing in the body
  throws on a string, so the \<open>catch\<close> branch is not reached.
\<close>

definition verifyKeyOffline :: "int \<Rightarrow> jstring \<Rightarrow> verdict" where
  "verifyKeyOffline now keyString =
     (case split 45 keyString of
        [prefix, expHex, typeCode, signature] \<Rightarrow>
          if prefix \<noteq> S ''SK'' then KeyInvalid msg_bad_format
          else if signature \<noteq> expectedSig expHex typeCode then KeyInvalid msg_bad_signature
          else if expHex \<noteq> S ''LIFETIME''
                  \<and> (case parseInt expHex 16 of None \<Rightarrow> False | Some expiresAt \<Rightarrow> now > expiresAt)
               then KeyInvalid msg_expired
          else KeyValid
      | _ \<Rightarrow> KeyInvalid msg_bad_format)"

text \<open>
  The validation rule in the words of the specification, on the segments of a key:
  the signature matches, and the expiry field is the unlimited literal or the current time
  is strictly less than the decoded expiry (which a field that decodes to no number
  cannot satisfy).
\<close>

definition spec_validate :: "int \<Rightarrow> jstring \<Rightarrow> jstring \<Rightarrow> jstring \<Rightarrow> bool" where
  "spec_validate now expHex typeCode signature =
     (signature = expectedSig expHex typeCode
      \<and> (expHex = S ''LIFETIME''
         \<or> (case parseInt expHex 16 of None \<Rightarrow> False | Some expiresAt \<Rightarrow> now < expiresAt)))"

section \<open>LicenseGuard: the component \<open>AuthGuard\<close> (src/App.tsx, lines 13-193)\<close>

text \<open>
  What \<open>fetch\<close> and \<open>response.json()\<close> give \<open>verifyKeyOnline\<close>. \<open>FetchFailed\<close> is a
  rejected \<open>fetch\<close> (no connection, or the abort after 8 seconds). \<open>BodyUnreadable\<close> is a
  body for which \<open>response.json()\<close> rejects or whose value has no properties (null), so
  that reading \<open>data.valid\<close> throws. \<open>Body v m\<close> is a parsed body: \<open>v\<close> tells whether
  \<open>data.valid === false\<close>, \<open>m\<close> is \<open>data.message\<close> when it is a string.
\<close>

datatype body = BodyUnreadable | Body (valid_is_false: bool) (body_message: "jstring option")

datatype http = FetchFailed | Response (status: nat) (response_body: body)

text \<open>The object returned by \<open>verifyKeyOnline\<close>, by its \<open>status\<close> field.\<close>

datatype online = VALID | INVALID jstring | ERROR jstring | NETWORK_ERROR

text \<open>The messages: "Key khong ton tai, da bi xoa hoac het han.", "Loi Server",
  "Key khong hop le".\<close>

definition msg_key_gone :: jstring where
  "msg_key_gone =
     [75, 101, 121, 32, 107, 104, 244, 110, 103, 32, 116, 7891, 110, 32, 116, 7841, 105, 44,
      32, 273, 227, 32, 98, 7883, 32, 120, 243, 97, 32, 104, 111, 7863, 99, 32, 104, 7871,
      116, 32, 104, 7841, 110, 46]"

definition msg_server_error :: jstring where
  "msg_server_error = [76, 7895, 105, 32, 83, 101, 114, 118, 101, 114]"

definition msg_key_invalid :: jstring where
  "msg_key_invalid =
     [75, 101, 121, 32, 107, 104, 244, 110, 103, 32, 104, 7907, 112, 32, 108, 7879]"

text \<open>\<open>response.ok\<close>: the status is in the range 200-299.\<close>

definition ok :: "nat \<Rightarrow> bool" where
  "ok st = (200 \<le> st \<and> st \<le> 299)"

text \<open>
  \<open>verifyKeyOnline\<close> (lines 29-61), as a function of what the network gave for the
  posted key. Every exception inside the \<open>try\<close> ends in \<open>NETWORK_ERROR\<close>.
\<close>

definition verifyKeyOnline :: "http \<Rightarrow> online" where
  "verifyKeyOnline h =
     (case h of
        FetchFailed \<Rightarrow> NETWORK_ERROR
      | Response st b \<Rightarrow>
          if \<not> ok st then
            (if st = 403 \<or> st = 404 then INVALID msg_key_gone else ERROR msg_server_error)
          else
            (case b of
               BodyUnreadable \<Rightarrow> NETWORK_ERROR
             | Body is_false m \<Rightarrow>
                 if is_false
                 then INVALID (case m of None \<Rightarrow> msg_key_invalid
                                 | Some t \<Rightarrow> if t = [] then msg_key_invalid else t)
                 else VALID))"

text \<open>
  The state of the component: its four \<open>useState\<close> cells and \<open>localStorage\<close>. The field
  \<open>verifications\<close> is an observation added to the model: it records, in order, each call
  of \<open>verifyKeyOnline\<close> and of \<open>verifyKeyOffline\<close> with the key passed.
\<close>

datatype verification = Online jstring | Offline jstring

record guard =
  isUnlocked :: bool
  isLoading :: bool
  keyInput :: jstring
  error :: jstring
  localStorage :: "jstring \<rightharpoonup> jstring"
  verifications :: "verification list"

definition license_slot :: jstring where
  "license_slot = S ''my_app_license_online''"

definition old_license_slot :: jstring where
  "old_license_slot = S ''my_app_license''"

text \<open>The component as mounted: \<open>useState(false)\<close>, \<open>useState(true)\<close>, \<open>useState('')\<close>,
  \<open>useState('')\<close>.\<close>

definition mounted :: "(jstring \<rightharpoonup> jstring) \<Rightarrow> guard" where
  "mounted store =
     \<lparr>isUnlocked = False, isLoading = True, keyInput = [], error = [],
      localStorage = store, verifications = []\<rparr>"

text \<open>\<open>handleLogout\<close> (lines 20-26).\<close>

definition handleLogout :: "guard \<Rightarrow> guard" where
  "handleLogout g =
     g\<lparr>localStorage := (localStorage g)(license_slot := None, old_license_slot := None),
       isUnlocked := False, keyInput := [], error := []\<rparr>"

text \<open>
  \<open>checkSavedKey\<close> (lines 148-163). \<open>net\<close> is the network: what the server gives for a
  posted key. \<open>if (savedKey)\<close> is false for a missing slot and for the empty string.
\<close>

definition checkSavedKey :: "(jstring \<Rightarrow> http) \<Rightarrow> int \<Rightarrow> guard \<Rightarrow> guard" where
  "checkSavedKey net now g =
     (let g1 =
        (case localStorage g license_slot of
           None \<Rightarrow> g
         | Some savedKey \<Rightarrow>
             if savedKey = [] then g
             else
               (let g0 = g\<lparr>verifications := verifications g @ [Online savedKey]\<rparr> in
                case verifyKeyOnline (net savedKey) of
                  VALID \<Rightarrow> g0\<lparr>isUnlocked := True\<rparr>
                | INVALID m \<Rightarrow> g0\<lparr>localStorage := (localStorage g0)(license_slot := None)\<rparr>
                | _ \<Rightarrow>
                    (let g2 = g0\<lparr>verifications := verifications g0 @ [Offline savedKey]\<rparr> in
                     if valid (verifyKeyOffline now savedKey) then g2\<lparr>isUnlocked := True\<rparr>
                     else g2)))
      in g1\<lparr>isLoading := False\<rparr>)"

text \<open>\<open>handleUnlock\<close> (lines 167-193).\<close>

definition handleUnlock :: "(jstring \<Rightarrow> http) \<Rightarrow> int \<Rightarrow> guard \<Rightarrow> guard" where
  "handleUnlock net now g =
     (let inputClean = toUpperCase (trim (keyInput g)) in
      if inputClean = [] then g
      else
        (let g0 = g\<lparr>isLoading := True, error := [],
                    verifications := verifications g @ [Online inputClean]\<rparr>;
             g1 =
               (case verifyKeyOnline (net inputClean) of
                  VALID \<Rightarrow>
                    g0\<lparr>localStorage := (localStorage g0)(license_slot \<mapsto> inputClean),
                        isUnlocked := True\<rparr>
                | INVALID m \<Rightarrow> g0\<lparr>error := m\<rparr>
                | _ \<Rightarrow>
                    (let g2 = g0\<lparr>verifications := verifications g0 @ [Offline inputClean]\<rparr> in
                     case verifyKeyOffline now inputClean of
                       KeyValid \<Rightarrow>
                         g2\<lparr>localStorage := (localStorage g2)(license_slot \<mapsto> inputClean),
                             isUnlocked := True\<rparr>
                     | KeyInvalid m \<Rightarrow> g2\<lparr>error := m\<rparr>))
         in g1\<lparr>isLoading := False\<rparr>))"

text \<open>The online outcomes after which the source goes on to the offline check: every
  status other than \<open>VALID\<close> and \<open>INVALID\<close>.\<close>

fun indeterminate :: "online \<Rightarrow> bool" where
  "indeterminate (ERROR m) = True"
| "indeterminate NETWORK_ERROR = True"
| "indeterminate _ = False"

fun authoritative_invalid :: "online \<Rightarrow> bool" where
  "authoritative_invalid (INVALID m) = True"
| "authoritative_invalid _ = False"

section \<open>SceneNormalizer: \<open>cleanAttribute\<close> and \<open>mapJsonToScenes\<close>\<close>

text \<open>
  \<open>t.toLowerCase()\<close>, used only to compare with the none-words below. The model
  lower-cases Basic Latin and Latin-1, and the Kelvin and Angstrom signs (U+212A, U+212B),
  which JavaScript turns into \<open>k\<close> and into U+00E5. Every other code unit is left as it
  is. JavaScript may change such a code unit, but never into code units of the none-words
  alone, so the model and JavaScript agree on which strings lower-case to a none-word.
\<close>

definition toLowerCase :: "jstring \<Rightarrow> jstring" where
  "toLowerCase s =
     map (\<lambda>c. if (65 \<le> c \<and> c \<le> 90) \<or> (192 \<le> c \<and> c \<le> 222 \<and> c \<noteq> 215) then c + 32
              else if c = 8490 then 107
              else if c = 8491 then 229
              else c) s"

text \<open>\<open>['khong co', 'none', 'n/a', 'null', '', 'unknown']\<close>, the first with its
  Vietnamese diacritics.\<close>

definition none_words :: "jstring list" where
  "none_words =
     [[107, 104, 244, 110, 103, 32, 99, 243], S ''none'', S ''n/a'', S ''null'', [],
      S ''unknown'']"

text \<open>\<open>t.replace(/^[,.\s]+|[,.\s]+$/g, "")\<close>: the leading and the trailing run of commas,
  full stops and white space are removed.\<close>

definition isPunctOrSpace :: "nat \<Rightarrow> bool" where
  "isPunctOrSpace c = (c = 44 \<or> c = 46 \<or> is_space c)"

definition stripPunct :: "jstring \<Rightarrow> jstring" where
  "stripPunct t = rev (dropWhile isPunctOrSpace (rev (dropWhile isPunctOrSpace t)))"

text \<open>\<open>cleanAttribute\<close> (src/services/geminiService.ts, lines 64-71; the copy in
  src/App.tsx, lines 288-295, is the same).\<close>

definition cleanAttribute :: "jstring option \<Rightarrow> jstring" where
  "cleanAttribute text =
     (case text of
        None \<Rightarrow> []
      | Some t0 \<Rightarrow>
          if t0 = [] then []
          else (let t = trim t0 in
                if toLowerCase t \<in> set none_words then []
                else trim (replaceLineBreaks (stripPunct t))))"

text \<open>\<open>parts.join(sep)\<close>\<close>

fun join :: "jstring \<Rightarrow> jstring list \<Rightarrow> jstring" where
  "join sep [] = []"
| "join sep [x] = x"
| "join sep (x # y # ys) = x @ sep @ join sep (y # ys)"

text \<open>\<open>parts.filter(Boolean)\<close> on strings: the empty strings go.\<close>

definition filterBoolean :: "jstring list \<Rightarrow> jstring list" where
  "filterBoolean parts = filter (\<lambda>p. p \<noteq> []) parts"

text \<open>\<open>xs.map((item, index) => f)\<close>\<close>

fun mapFrom :: "nat \<Rightarrow> ('a \<Rightarrow> nat \<Rightarrow> 'b) \<Rightarrow> 'a list \<Rightarrow> 'b list" where
  "mapFrom i f [] = []"
| "mapFrom i f (x # xs) = f x i # mapFrom (Suc i) f xs"

definition mapIndexed :: "('a \<Rightarrow> nat \<Rightarrow> 'b) \<Rightarrow> 'a list \<Rightarrow> 'b list" where
  "mapIndexed f xs = mapFrom 0 f xs"

text \<open>A number in a template literal. The numbers of a response are modelled as
  integers; they are written in decimal.\<close>

function showNat :: "nat \<Rightarrow> jstring" where
  "showNat n = (if n < 10 then [48 + n] else showNat (n div 10) @ [48 + n mod 10])"
  by pat_completeness auto
termination
  by (relation "measure id") auto

declare showNat.simps [simp del]

definition showInt :: "int \<Rightarrow> jstring" where
  "showInt i = (if i < 0 then 45 # showNat (nat (- i)) else showNat (nat i))"

subsection \<open>The raw scene of a response\<close>

text \<open>
  The items of \<open>json.scenes\<close> have the type \<open>any\<close>; the model gives them the shape that
  the prompt asks for, every field optional: \<open>None\<close> is a field that is missing or null.
  \<open>ambient_sound\<close> is an array of strings or one string, as the source tells them apart
  with \<open>Array.isArray\<close>.
\<close>

record raw_time =
  time_start :: "int option"
  time_end :: "int option"

datatype raw_sound = SoundArray "jstring option list" | SoundText "jstring option"

record raw_environment =
  location :: "jstring option"
  weather :: "jstring option"
  ambient_sound :: raw_sound

record raw_actions =
  body_movement :: "jstring option"

record raw_character =
  name :: "jstring option"
  appearance :: "jstring option"
  outfit :: "jstring option"
  emotion :: "jstring option"
  actions :: "raw_actions option"

record raw_camera =
  shot_type :: "jstring option"
  movement :: "jstring option"

record raw_visual_style =
  style :: "jstring option"
  lighting :: "jstring option"

record raw_dialogue =
  line :: "jstring option"
  language :: "jstring option"

record raw_scene =
  scene :: "int option"
  time :: "raw_time option"
  continuity_reference :: "jstring option"
  environment :: "raw_environment option"
  characters :: "raw_character list option"
  camera :: "raw_camera option"
  visual_style :: "raw_visual_style option"
  dialogue :: "raw_dialogue option"
  raw_wishk_prompt :: "jstring option"

text \<open>Optional chaining \<open>a?.b\<close>.\<close>

definition chain :: "'a option \<Rightarrow> ('a \<Rightarrow> 'b option) \<Rightarrow> 'b option" where
  "chain a f = (case a of None \<Rightarrow> None | Some x \<Rightarrow> f x)"

subsection \<open>The scene that \<open>mapJsonToScenes\<close> builds\<close>

text \<open>The object \<open>jsonPrompt\<close>. \<open>veo_prompt\<close> is \<open>JSON.stringify(jsonPrompt)\<close>; the model
  keeps the object, of which the string is a function.\<close>

datatype json_environment = JsonEnvironment jstring jstring "jstring list"

datatype json_character = JsonCharacter jstring jstring jstring jstring jstring

datatype json_prompt =
  JsonPrompt int raw_time jstring json_environment "json_character list"
    "jstring \<times> jstring" "jstring \<times> jstring" "jstring \<times> jstring"

record Scene =
  scene_number :: int
  script_description :: jstring
  veo_prompt :: json_prompt
  wishk_prompt :: jstring

text \<open>The literals of the description: "Thoi luong: ", "Dia diem: ", "Thoi tiet: ",
  "Am thanh: ", "Nhan vat: ", " (Cam xuc: ", " -> Hanh dong: ", "Thoai (",
  "Thoai: Khong co", "Canh ".\<close>

definition lit_duration :: jstring where
  "lit_duration = [84, 104, 7901, 105, 32, 108, 432, 7907, 110, 103, 58, 32]"

definition lit_location :: jstring where
  "lit_location = [272, 7883, 97, 32, 273, 105, 7875, 109, 58, 32]"

definition lit_weather :: jstring where
  "lit_weather = [84, 104, 7901, 105, 32, 116, 105, 7871, 116, 58, 32]"

definition lit_sound :: jstring where
  "lit_sound = [194, 109, 32, 116, 104, 97, 110, 104, 58, 32]"

definition lit_characters :: jstring where
  "lit_characters = [78, 104, 226, 110, 32, 118, 7853, 116, 58, 32]"

definition lit_emotion :: jstring where
  "lit_emotion = [32, 40, 67, 7843, 109, 32, 120, 250, 99, 58, 32]"

definition lit_action :: jstring where
  "lit_action = [32, 45, 62, 32, 72, 224, 110, 104, 32, 273, 7897, 110, 103, 58, 32]"

definition lit_dialogue_open :: jstring where
  "lit_dialogue_open = [84, 104, 111, 7841, 105, 32, 40]"

definition lit_no_dialogue :: jstring where
  "lit_no_dialogue = [84, 104, 111, 7841, 105, 58, 32, 75, 104, 244, 110, 103, 32, 99, 243]"

definition lit_scene :: jstring where
  "lit_scene = [67, 7843, 110, 104, 32]"

text \<open>\<open>item.scene || index + 1\<close>: a missing number and the number 0 give the position.\<close>

definition sceneNumberOf :: "raw_scene \<Rightarrow> nat \<Rightarrow> int" where
  "sceneNumberOf item index =
     (case scene item of
        None \<Rightarrow> int index + 1
      | Some n \<Rightarrow> if n = 0 then int index + 1 else n)"

text \<open>The segments of the description, in the order of the source (geminiService.ts,
  lines 85-138; App.tsx, lines 305-357).\<close>

definition timeLine :: "raw_scene \<Rightarrow> jstring" where
  "timeLine item =
     (let timeStart = (case chain (time item) time_start of None \<Rightarrow> 0 | Some v \<Rightarrow> v);
          timeEnd = (case chain (time item) time_end of None \<Rightarrow> 5 | Some v \<Rightarrow> v)
      in lit_duration @ showInt timeStart @ S ''s - '' @ showInt timeEnd @ S ''s'')"

definition sceneLine :: "raw_scene \<Rightarrow> nat \<Rightarrow> jstring" where
  "sceneLine item index =
     lit_scene @ showInt (sceneNumberOf item index) @ S '' ('' @ timeLine item @ S '')''"

text \<open>The continuity segment of src/App.tsx (line 311).\<close>

definition continuityLine :: "raw_scene \<Rightarrow> nat \<Rightarrow> jstring" where
  "continuityLine item index =
     (let continuity = cleanAttribute (continuity_reference item)
      in if continuity \<noteq> [] then S ''Continuity: '' @ continuity else [])"

text \<open>The continuity segment of src/services/geminiService.ts (line 91).\<close>

definition continuityLine_service :: "raw_scene \<Rightarrow> nat \<Rightarrow> jstring" where
  "continuityLine_service item index =
     (let continuity = cleanAttribute (continuity_reference item)
      in if continuity \<noteq> [] then S ''Continuity: '' @ continuity
         else if index > 0 then S ''Continuity: [Missing]'' else [])"

definition envLine :: "raw_scene \<Rightarrow> jstring" where
  "envLine item =
     (let location = cleanAttribute (chain (environment item) location);
          weather = cleanAttribute (chain (environment item) weather);
          sounds =
            (case environment item of
               None \<Rightarrow> cleanAttribute None
             | Some e \<Rightarrow>
                 (case ambient_sound e of
                    SoundArray a \<Rightarrow> join (S '', '') (map cleanAttribute a)
                  | SoundText t \<Rightarrow> cleanAttribute t));
          envParts =
            (if location \<noteq> [] then [lit_location @ location] else [])
            @ (if weather \<noteq> [] then [lit_weather @ weather] else [])
            @ (if sounds \<noteq> [] then [lit_sound @ sounds] else [])
      in join (S '' | '') envParts)"

definition charDesc :: "raw_character \<Rightarrow> jstring" where
  "charDesc c =
     (let name = cleanAttribute (name c);
          app = cleanAttribute (appearance c);
          outfit = cleanAttribute (outfit c);
          emotion = cleanAttribute (emotion c);
          action = cleanAttribute (chain (actions c) body_movement)
      in name
         @ (if app \<noteq> [] \<or> outfit \<noteq> []
            then S '' ['' @ join (S '', '') (filterBoolean [app, outfit]) @ S '']'' else [])
         @ (if emotion \<noteq> [] then lit_emotion @ emotion @ S '')'' else [])
         @ (if action \<noteq> [] then lit_action @ action else []))"

definition charLine :: "raw_scene \<Rightarrow> jstring" where
  "charLine item =
     (case characters item of
        None \<Rightarrow> []
      | Some cs \<Rightarrow>
          (let chars = join (S ''; '') (map charDesc cs)
           in if chars \<noteq> [] then lit_characters @ chars else []))"

definition cameraLine :: "raw_scene \<Rightarrow> jstring" where
  "cameraLine item =
     (let shotType = cleanAttribute (chain (camera item) shot_type);
          camMove = cleanAttribute (chain (camera item) movement)
      in if shotType \<noteq> [] \<or> camMove \<noteq> []
         then S ''Camera: '' @ shotType @ S '' | '' @ camMove else [])"

definition styleLine :: "raw_scene \<Rightarrow> jstring" where
  "styleLine item =
     (let styleName = cleanAttribute (chain (visual_style item) style);
          lighting = cleanAttribute (chain (visual_style item) lighting)
      in if styleName \<noteq> [] \<or> lighting \<noteq> []
         then S ''Visual: '' @ styleName @ S '' | Light: '' @ lighting else [])"

definition dialogueLine :: "raw_scene \<Rightarrow> jstring" where
  "dialogueLine item =
     (let line = cleanAttribute (chain (dialogue item) line);
          lang = cleanAttribute (chain (dialogue item) language)
      in if line \<noteq> [] then lit_dialogue_open @ lang @ [41, 58, 32, 34] @ line @ [34]
         else lit_no_dialogue)"

text \<open>The object \<open>jsonPrompt\<close> (geminiService.ts, lines 152-184; App.tsx, lines 371-401).\<close>

definition jsonPrompt :: "raw_scene \<Rightarrow> nat \<Rightarrow> json_prompt" where
  "jsonPrompt item index =
     JsonPrompt
       (sceneNumberOf item index)
       (case time item of None \<Rightarrow> \<lparr>time_start = Some 0, time_end = Some 5\<rparr> | Some t \<Rightarrow> t)
       (cleanForJson (continuity_reference item))
       (JsonEnvironment
          (cleanForJson (chain (environment item) location))
          (cleanForJson (chain (environment item) weather))
          (case environment item of
             None \<Rightarrow> []
           | Some e \<Rightarrow>
               (case ambient_sound e of SoundArray a \<Rightarrow> map cleanForJson a | SoundText t \<Rightarrow> [])))
       (map (\<lambda>c. JsonCharacter (cleanForJson (name c)) (cleanForJson (appearance c))
                    (cleanForJson (outfit c)) (cleanForJson (emotion c))
                    (cleanForJson (chain (actions c) body_movement)))
          (case characters item of None \<Rightarrow> [] | Some cs \<Rightarrow> cs))
       (cleanForJson (chain (camera item) shot_type), cleanForJson (chain (camera item) movement))
       (cleanForJson (chain (visual_style item) style),
        cleanForJson (chain (visual_style item) lighting))
       (cleanForJson (chain (dialogue item) line), cleanForJson (chain (dialogue item) language))"

text \<open>The callback of \<open>mapJsonToScenes\<close> in src/App.tsx (lines 303-412).\<close>

definition sceneOf :: "raw_scene \<Rightarrow> nat \<Rightarrow> Scene" where
  "sceneOf item index =
     \<lparr>scene_number = sceneNumberOf item index,
      script_description =
        join (S '' | '')
          (filterBoolean
             [sceneLine item index, continuityLine item index, envLine item, charLine item,
              cameraLine item, styleLine item, dialogueLine item]),
      veo_prompt = jsonPrompt item index,
      wishk_prompt = cleanForJson (Some (case raw_wishk_prompt item of None \<Rightarrow> [] | Some w \<Rightarrow> w))\<rparr>"

definition mapJsonToScenes :: "raw_scene list \<Rightarrow> Scene list" where
  "mapJsonToScenes rawScenes = mapIndexed sceneOf rawScenes"

text \<open>The callback of \<open>mapJsonToScenes\<close> in src/services/geminiService.ts (lines 80-197).\<close>

definition sceneOf_service :: "raw_scene \<Rightarrow> nat \<Rightarrow> Scene" where
  "sceneOf_service item index =
     \<lparr>scene_number = sceneNumberOf item index,
      script_description =
        join (S '' | '')
          (filterBoolean
             [sceneLine item index, continuityLine_service item index, envLine item,
              charLine item, cameraLine item, styleLine item, dialogueLine item]),
      veo_prompt = jsonPrompt item index,
      wishk_prompt = cleanForJson (Some (case raw_wishk_prompt item of None \<Rightarrow> [] | Some w \<Rightarrow> w))\<rparr>"

definition mapJsonToScenes_service :: "raw_scene list \<Rightarrow> Scene list" where
  "mapJsonToScenes_service rawScenes = mapIndexed sceneOf_service rawScenes"

text \<open>A raw scene with no field at all, the JSON value \<open>{}\<close>.\<close>

definition empty_scene :: raw_scene where
  "empty_scene =
     \<lparr>scene = None, time = None, continuity_reference = None, environment = None,
      characters = None, camera = None, visual_style = None, dialogue = None,
      raw_wishk_prompt = None\<rparr>"

text \<open>
  The description in the words of the specification: the pipe-joined non-empty segments,
  where a segment is empty when its source field is empty or a none-word. The segments
  with a placeholder in the source are the continuity note and the dialogue; here they
  are empty when the cleaned source field is.
\<close>

definition spec_description :: "raw_scene \<Rightarrow> nat \<Rightarrow> jstring" where
  "spec_description item index =
     join (S '' | '')
       (filterBoolean
          [sceneLine item index,
           (if cleanAttribute (continuity_reference item) = [] then []
            else continuityLine item index),
           envLine item, charLine item, cameraLine item, styleLine item,
           (if cleanAttribute (chain (dialogue item) line) = [] then []
            else dialogueLine item)])"

section \<open>The generative service and the effects of a generation call\<close>

text \<open>
  An error object, as far as the source reads it: \<open>error.message\<close> (\<open>None\<close> when the
  thrown value has none), \<open>JSON.stringify(error)\<close> and, when \<open>error.response\<close> is there,
  \<open>JSON.stringify(error.response)\<close>, else the empty string.
\<close>

record js_error =
  message :: "jstring option"
  stringified :: jstring
  details :: jstring

text \<open>\<open>new Error(m)\<close>: \<open>JSON.stringify\<close> of it is \<open>{}\<close>, and it has no \<open>response\<close>.\<close>

definition Error :: "jstring \<Rightarrow> js_error" where
  "Error m = \<lparr>message = Some m, stringified = S ''{}'', details = []\<rparr>"

text \<open>\<open>v || ""\<close>\<close>

definition orEmpty :: "jstring option \<Rightarrow> jstring" where
  "orEmpty v = (case v of None \<Rightarrow> [] | Some t \<Rightarrow> t)"

text \<open>A string or undefined put into a template literal or added to a string: undefined
  is written \<open>undefined\<close>.\<close>

definition templateOf :: "jstring option \<Rightarrow> jstring" where
  "templateOf v = (case v of None \<Rightarrow> S ''undefined'' | Some t \<Rightarrow> t)"

text \<open>\<open>VideoGenerationOptions\<close> (declared in a file of types that is not among the
  sources; these are the fields the source reads). \<open>promptCount\<close> is a number or a string;
  it may be missing, and a number may be NaN.\<close>

datatype prompt_count = CountMissing | CountNaN | CountNumber int | CountString jstring

record options =
  idea :: jstring
  videoStyle :: jstring
  promptCount :: prompt_count
  dialogueLanguage :: jstring
  promptType :: "jstring option"

text \<open>
  A request to the model is its prompt. The prompt is a fixed text with values put in;
  the model keeps the values, by the function that builds the prompt:
  \<^item> \<open>FirstBatch startIndex count idea videoStyle dialogueLanguage\<close> and
    \<open>NextBatch startIndex count storySummary previousContext idea videoStyle dialogueLanguage\<close>
    for \<open>generateBatch\<close> (App.tsx, lines 428-482);
  \<^item> \<open>ExtendPrompt scene_number script_description extensionIdea count videoStyle\<close> for
    \<open>extendScript\<close> of App.tsx (lines 650-682), and \<open>ExtendPrompt_service\<close> with the
    same values for \<open>extendScript\<close> of geminiService.ts (lines 321-366);
  \<^item> \<open>WholePrompt idea videoStyle promptCount promptType dialogueLanguage\<close> for
    \<open>generateScript\<close> of geminiService.ts (lines 209-277).
\<close>

datatype request =
  FirstBatch int int jstring jstring jstring
| NextBatch int int jstring jstring jstring jstring jstring
| ExtendPrompt int jstring jstring int jstring
| ExtendPrompt_service int jstring jstring int jstring
| WholePrompt jstring jstring prompt_count "jstring option" jstring

text \<open>
  What one call of \<open>ai.models.generateContent\<close> followed by \<open>JSON.parse(response.text)\<close>
  gives: an exception (of the call or of the parser), a response without text, or the
  parsed object with its fields \<open>scenes\<close> and \<open>story_summary\<close>, each of which may be
  missing.
\<close>

datatype ai_outcome = Threw js_error | NoText | Json "raw_scene list option" "jstring option"

text \<open>The service: its answer to a request may depend on how many requests came before.\<close>

type_synonym ai = "nat \<Rightarrow> request \<Rightarrow> ai_outcome"

text \<open>The messages handed to \<open>onProgress\<close>, by the template and the values put in.\<close>

datatype progress =
  ProcessingPart nat nat int int
| QuotaAdvised jstring jstring "nat option"
| QuotaPause nat nat
| ServerBusy nat
| Resting
| Analysing
| Creating

text \<open>What a generation call does besides returning: requests to the model, progress
  messages, waits (\<open>delay(ms)\<close>, and \<open>DelayedInfinity\<close> for \<open>delay(Infinity)\<close>) and
  \<open>console.error\<close>, in order.\<close>

datatype event =
  Requested request | Progress progress | Delayed nat | DelayedInfinity | ConsoleError js_error

record world =
  calls :: nat
  events :: "event list"

definition emit :: "event list \<Rightarrow> world \<Rightarrow> world" where
  "emit es w = w\<lparr>events := events w @ es\<rparr>"

text \<open>One request: the model answers, the request is counted and recorded.\<close>

definition ask :: "ai \<Rightarrow> request \<Rightarrow> world \<Rightarrow> ai_outcome \<times> world" where
  "ask ai req w = (ai (calls w) req, w\<lparr>calls := calls w + 1, events := events w @ [Requested req]\<rparr>)"

text \<open>\<open>createAiClient\<close>: "Vui long nhap Google AI Studio API Key."\<close>

definition msg_no_api_key :: jstring where
  "msg_no_api_key =
     [86, 117, 105, 32, 108, 242, 110, 103, 32, 110, 104, 7853, 112, 32, 71, 111, 111, 103,
      108, 101, 32, 65, 73, 32, 83, 116, 117, 100, 105, 111, 32, 65, 80, 73, 32, 75, 101,
      121, 46]"

section \<open>RetryScheduler: \<open>generateBatch\<close> and \<open>generateBatchWithRetry\<close> (src/App.tsx)\<close>

datatype batch = Batch (batch_scenes: "raw_scene list") (batch_summary: jstring)

text \<open>\<open>generateBatch\<close> (lines 419-497).\<close>

definition batchRequest :: "options \<Rightarrow> int \<Rightarrow> int \<Rightarrow> jstring \<Rightarrow> jstring \<Rightarrow> request" where
  "batchRequest options startIndex count previousContext storySummary =
     (if startIndex = 1
      then FirstBatch startIndex count (idea options) (videoStyle options) (dialogueLanguage options)
      else NextBatch startIndex count storySummary previousContext
             (idea options) (videoStyle options) (dialogueLanguage options))"

definition generateBatch ::
  "ai \<Rightarrow> options \<Rightarrow> int \<Rightarrow> int \<Rightarrow> jstring \<Rightarrow> jstring \<Rightarrow> world \<Rightarrow> (js_error + batch) \<times> world" where
  "generateBatch ai options startIndex count previousContext storySummary w =
     (case ask ai (batchRequest options startIndex count previousContext storySummary) w of
        (Threw e, w1) \<Rightarrow> (Inl e, w1)
      | (NoText, w1) \<Rightarrow> (Inl (Error (S ''No response from AI'')), w1)
      | (Json scs sm, w1) \<Rightarrow>
          (Inr (Batch (case scs of None \<Rightarrow> [] | Some l \<Rightarrow> l)
                      (case sm of None \<Rightarrow> [] | Some t \<Rightarrow> t)), w1))"

text \<open>\<open>s.includes(sub)\<close>\<close>

fun startsWith :: "jstring \<Rightarrow> jstring \<Rightarrow> bool" where
  "startsWith s [] = True"
| "startsWith [] (p # ps) = False"
| "startsWith (c # cs) (p # ps) = (c = p \<and> startsWith cs ps)"

fun includesSub :: "jstring \<Rightarrow> jstring \<Rightarrow> bool" where
  "includesSub [] sub = (sub = [])"
| "includesSub (c # cs) sub = (startsWith (c # cs) sub \<or> includesSub cs sub)"

text \<open>Lines 522-527.\<close>

definition errorString :: "js_error \<Rightarrow> jstring" where
  "errorString e = orEmpty (message e) @ S '' '' @ stringified e @ S '' '' @ details e"

definition isQuota :: "jstring \<Rightarrow> bool" where
  "isQuota s = (includesSub s (S ''429'') \<or> includesSub s (S ''quota'') \<or> includesSub s (S ''RESOURCE_EXHAUSTED''))"

definition isOverloaded :: "jstring \<Rightarrow> bool" where
  "isOverloaded s = (includesSub s (S ''503'') \<or> includesSub s (S ''overloaded''))"

text \<open>
  \<open>errorString.match(/retry in (\d+(\.\d+)?)s/i)\<close>. The flag \<open>i\<close> lets the letters of the
  pattern match in either case (no code unit outside Basic Latin matches a Basic Latin
  letter of a pattern without the flag \<open>u\<close>). \<open>matchRetryAt\<close> is the match that starts at
  the first code unit; it gives the digits before and after the decimal point.
\<close>

definition lowerAscii :: "nat \<Rightarrow> nat" where
  "lowerAscii c = (if 65 \<le> c \<and> c \<le> 90 then c + 32 else c)"

definition isDecimalDigit :: "nat \<Rightarrow> bool" where
  "isDecimalDigit c = (48 \<le> c \<and> c \<le> 57)"

definition matchRetryAt :: "jstring \<Rightarrow> (jstring \<times> jstring) option" where
  "matchRetryAt s =
     (if startsWith (map lowerAscii s) (S ''retry in '') then
        (let r = drop 9 s;
             ds = takeWhile isDecimalDigit r;
             r1 = dropWhile isDecimalDigit r
         in if ds = [] then None
            else
              (case r1 of
                 [] \<Rightarrow> None
               | c # r2 \<Rightarrow>
                   if c = 46 then
                     (let fs = takeWhile isDecimalDigit r2;
                          r3 = dropWhile isDecimalDigit r2
                      in if fs \<noteq> [] \<and> startsWith (map lowerAscii r3) (S ''s'')
                         then Some (ds, fs) else None)
                   else if lowerAscii c = 115 then Some (ds, [])
                   else None))
      else None)"

fun matchRetry :: "jstring \<Rightarrow> (jstring \<times> jstring) option" where
  "matchRetry [] = None"
| "matchRetry (c # cs) =
     (case matchRetryAt (c # cs) of Some m \<Rightarrow> Some m | None \<Rightarrow> matchRetry cs)"

text \<open>
  JavaScript numbers are IEEE 754 doubles. The waits of the source are not negative and,
  after \<open>Math.ceil\<close>, whole, so such a number is modelled by a natural number, and
  \<open>Infinity\<close> by \<open>None\<close>. A decimal literal, a product and a sum are rounded to the
  nearest double, a tie to the even significand of 53 bits. (For a literal of more than
  20 significant digits ECMAScript leaves the choice between the two neighbours of the
  20-digit prefix to the engine; the model rounds the literal itself, as the engines do.)
\<close>

text \<open>The number of binary digits of a natural number.\<close>

function bitLength :: "nat \<Rightarrow> nat" where
  "bitLength n = (if n = 0 then 0 else Suc (bitLength (n div 2)))"
  by pat_completeness auto
termination
  by (relation "measure id") auto

declare bitLength.simps [simp del]

text \<open>The whole number nearest to \<open>a / b\<close>, a tie going to the even one.\<close>

definition roundHalfEven :: "nat \<Rightarrow> nat \<Rightarrow> nat" where
  "roundHalfEven a b =
     (let q = a div b; r = a mod b
      in if 2 * r < b then q else if b < 2 * r then q + 1 else if even q then q else q + 1)"

text \<open>The double nearest to a natural number: the number itself below \<open>2^53\<close>, else a
  multiple of the unit in the last place, and \<open>Infinity\<close> from \<open>2^1024\<close> on.\<close>

definition toDouble :: "nat \<Rightarrow> nat option" where
  "toDouble n =
     (if n < 2 ^ 53 then Some n
      else (let ulp = 2 ^ (bitLength n - 53);
                r = roundHalfEven n ulp * ulp
            in if 2 ^ 1024 \<le> r then None else Some r))"

text \<open>
  \<open>Math.ceil(parseFloat(match[1]))\<close>, for the digits \<open>ds\<close> before and \<open>fs\<close> after the
  decimal point: the literal is the fraction \<open>v / b\<close>. Below 1 its double is 0 up to
  \<open>2^-1075\<close> (half of the least positive double) and positive above. From 1 on, the double
  has as many binary digits after the point as 53 less those of the whole part, or, from
  \<open>2^53\<close> on, is a multiple of the unit in the last place.
\<close>

definition ceilParseFloat :: "jstring \<Rightarrow> jstring \<Rightarrow> nat option" where
  "ceilParseFloat ds fs =
     (let v = digitsValue 10 (ds @ fs);
          b = 10 ^ length fs;
          whole = v div b
      in if whole = 0 then Some (if v * 2 ^ 1075 \<le> b then 0 else 1)
         else if bitLength whole \<le> 53 then
           (let scale = 2 ^ (53 - bitLength whole);
                m = roundHalfEven (v * scale) b
            in Some ((m + scale - 1) div scale))
         else
           (let ulp = 2 ^ (bitLength whole - 53);
                r = roundHalfEven v (b * ulp) * ulp
            in if 2 ^ 1024 \<le> r then None else Some r))"

text \<open>Line 539: \<open>Math.ceil(googleWaitTime) * 1000 + 3000\<close>, the product and the sum in
  doubles.\<close>

definition advisedWait :: "jstring \<Rightarrow> jstring \<Rightarrow> nat option" where
  "advisedWait ds fs =
     (case ceilParseFloat ds fs of
        None \<Rightarrow> None
      | Some c \<Rightarrow> (case toDouble (c * 1000) of None \<Rightarrow> None | Some p \<Rightarrow> toDouble (p + 3000)))"

text \<open>\<open>delay(waitTime)\<close>\<close>

definition delayed :: "nat option \<Rightarrow> event" where
  "delayed waitTime = (case waitTime of None \<Rightarrow> DelayedInfinity | Some ms \<Rightarrow> Delayed ms)"

definition MAX_RETRIES :: nat where
  "MAX_RETRIES = 10"

text \<open>Lines 530-551: the wait in milliseconds after the failure number \<open>attempt\<close>, and
  the progress message that announces it.\<close>

definition retryWait :: "jstring \<Rightarrow> nat \<Rightarrow> progress \<times> nat option" where
  "retryWait errorText attempt =
     (case matchRetry errorText of
        Some (ds, fs) \<Rightarrow>
          (let waitTime = advisedWait ds fs in (QuotaAdvised ds fs waitTime, waitTime))
      | None \<Rightarrow>
          if isQuota errorText
          then (let waitTime = 20000 * attempt in (QuotaPause waitTime attempt, Some waitTime))
          else (let waitTime = 5000 * 2 ^ (attempt - 1) in (ServerBusy waitTime, Some waitTime)))"

text \<open>"Khong the ket noi sau nhieu lan thu. Vui long kiem tra Quota tai khoan Google cua
  ban.", the message of the error thrown after the loop (line 560).\<close>

definition msg_could_not_connect :: jstring where
  "msg_could_not_connect =
     [75, 104, 244, 110, 103, 32, 116, 104, 7875, 32, 107, 7871, 116, 32, 110, 7889, 105, 32,
      115, 97, 117, 32, 110, 104, 105, 7873, 117, 32, 108, 7847, 110, 32, 116, 104, 7917, 46,
      32, 86, 117, 105, 32, 108, 242, 110, 103, 32, 107, 105, 7875, 109, 32, 116, 114, 97, 32,
      81, 117, 111, 116, 97, 32, 116, 224, 105, 32, 107, 104, 111, 7843, 110, 32, 71, 111,
      111, 103, 108, 101, 32, 99, 7911, 97, 32, 98, 7841, 110, 46]"

text \<open>The loop of \<open>generateBatchWithRetry\<close> (lines 514-560), from the value \<open>attempt\<close> of
  its counter.\<close>

function retryLoop ::
  "ai \<Rightarrow> options \<Rightarrow> int \<Rightarrow> int \<Rightarrow> jstring \<Rightarrow> jstring \<Rightarrow> nat \<Rightarrow> world \<Rightarrow> (js_error + batch) \<times> world" where
  "retryLoop ai options startIndex count previousContext storySummary attempt w =
     (if attempt < MAX_RETRIES then
        (case generateBatch ai options startIndex count previousContext storySummary w of
           (Inr result, w1) \<Rightarrow> (Inr result, w1)
         | (Inl err, w1) \<Rightarrow>
             if (isQuota (errorString err) \<or> isOverloaded (errorString err))
                \<and> attempt + 1 < MAX_RETRIES
             then
               (case retryWait (errorString err) (attempt + 1) of
                  (msg, waitTime) \<Rightarrow>
                    retryLoop ai options startIndex count previousContext storySummary
                      (attempt + 1) (emit [Progress msg, delayed waitTime] w1))
             else (Inl err, w1))
      else (Inl (Error msg_could_not_connect), w))"
  by pat_completeness auto
termination
  by (relation "measure (\<lambda>(ai, options, startIndex, count, previousContext, storySummary, attempt, w).
                           MAX_RETRIES - attempt)") auto

declare retryLoop.simps [simp del]

definition generateBatchWithRetry ::
  "ai \<Rightarrow> options \<Rightarrow> int \<Rightarrow> int \<Rightarrow> jstring \<Rightarrow> jstring \<Rightarrow> world \<Rightarrow> (js_error + batch) \<times> world" where
  "generateBatchWithRetry ai options startIndex count previousContext storySummary w =
     retryLoop ai options startIndex count previousContext storySummary 0 w"

section \<open>ScriptOrchestrator: \<open>generateScript\<close> and \<open>extendScript\<close>\<close>

record Script =
  story_summary :: jstring
  scenes :: "Scene list"

definition BATCH_SIZE :: int where
  "BATCH_SIZE = 10"

text \<open>
  Lines 575-579 of src/App.tsx: a string is read with \<open>parseInt(_, 10)\<close>; a value for
  which \<open>isNaN\<close> holds (NaN, or undefined for a missing count) and a value \<open>\<le> 0\<close> give 5.
\<close>

definition targetCountOf :: "prompt_count \<Rightarrow> int" where
  "targetCountOf pc =
     (let targetCount =
        (case pc of
           CountString s \<Rightarrow> parseInt s 10
         | CountNumber n \<Rightarrow> Some n
         | CountNaN \<Rightarrow> None
         | CountMissing \<Rightarrow> None)
      in case targetCount of None \<Rightarrow> 5 | Some n \<Rightarrow> if n \<le> 0 then 5 else n)"

text \<open>Lines 608-611: \<open>result.scenes.map((s, idx) => ({...s, scene: startIndex + idx}))\<close>.\<close>

definition correctScenes :: "int \<Rightarrow> raw_scene list \<Rightarrow> raw_scene list" where
  "correctScenes startIndex scs = mapIndexed (\<lambda>s idx. s\<lparr>scene := Some (startIndex + int idx)\<rparr>) scs"

text \<open>\<open>xs?.[0]\<close>\<close>

definition first :: "'a list \<Rightarrow> 'a option" where
  "first xs = (case xs of [] \<Rightarrow> None | x # _ \<Rightarrow> Some x)"

text \<open>Lines 615-618: the context handed to the next batch.\<close>

definition contextOf :: "raw_scene \<Rightarrow> jstring" where
  "contextOf lastScene =
     (let charAction =
            orEmpty (chain (chain (chain (characters lastScene) first) actions) body_movement);
          location = orEmpty (chain (environment lastScene) location)
      in S ''Scene ''
         @ (case scene lastScene of None \<Rightarrow> S ''undefined'' | Some n \<Rightarrow> showInt n)
         @ S '' ended at '' @ location @ S ''. Action: '' @ charAction)"

text \<open>"Loi o phan "\<close>

definition lit_error_in_part :: jstring where
  "lit_error_in_part = [76, 7895, 105, 32, 7903, 32, 112, 104, 7847, 110, 32]"

text \<open>The \<open>for\<close> loop of \<open>generateScript\<close> (src/App.tsx, lines 587-631), from the value
  \<open>batch\<close> of its counter, with the variables \<open>allRawScenes\<close>, \<open>storySummary\<close> and
  \<open>previousContext\<close>.\<close>

function batchLoop ::
  "ai \<Rightarrow> options \<Rightarrow> int \<Rightarrow> nat \<Rightarrow> nat \<Rightarrow> raw_scene list \<Rightarrow> jstring \<Rightarrow> jstring \<Rightarrow> world
   \<Rightarrow> (js_error + raw_scene list \<times> jstring) \<times> world" where
  "batchLoop ai options targetCount totalBatches batch allRawScenes storySummary previousContext w =
     (if batch < totalBatches then
        (let startIndex = int batch * BATCH_SIZE + 1;
             countForThisBatch = min BATCH_SIZE (targetCount - int (length allRawScenes));
             w0 = emit [Progress (ProcessingPart (batch + 1) totalBatches startIndex
                                    (startIndex + countForThisBatch - 1))] w
         in case generateBatchWithRetry ai options startIndex countForThisBatch
                   previousContext storySummary w0 of
              (Inl err, w1) \<Rightarrow>
                (Inl (Error (lit_error_in_part @ showInt (int batch + 1) @ S '': '' @ templateOf (message err))),
                 emit [ConsoleError err] w1)
            | (Inr result, w1) \<Rightarrow>
                (let storySummary1 = (if batch = 0 then batch_summary result else storySummary)
                 in if batch_scenes result \<noteq> [] then
                      (let correctedScenes = correctScenes startIndex (batch_scenes result);
                           lastScene = last correctedScenes;
                           w2 = (if batch + 1 < totalBatches
                                 then emit [Progress Resting, Delayed 6000] w1 else w1)
                       in batchLoop ai options targetCount totalBatches (batch + 1)
                            (allRawScenes @ correctedScenes) storySummary1 (contextOf lastScene) w2)
                    else batchLoop ai options targetCount totalBatches (batch + 1)
                           allRawScenes storySummary1 previousContext w1))
      else (Inr (allRawScenes, storySummary), w))"
  by pat_completeness auto
termination
  by (relation "measure (\<lambda>(ai, options, targetCount, totalBatches, batch, r). totalBatches - batch)")
     auto

declare batchLoop.simps [simp del]

text \<open>\<open>generateScript\<close> of src/App.tsx (lines 563-637). \<open>Math.ceil(targetCount / BATCH_SIZE)\<close>
  is written with integer division.\<close>

definition generateScript ::
  "ai \<Rightarrow> options \<Rightarrow> jstring \<Rightarrow> world \<Rightarrow> (js_error + Script) \<times> world" where
  "generateScript ai options apiKey w =
     (if apiKey = [] then (Inl (Error msg_no_api_key), w)
      else
        (let targetCount = targetCountOf (promptCount options);
             totalBatches = nat (- ((- targetCount) div BATCH_SIZE))
         in case batchLoop ai options targetCount totalBatches 0 [] [] [] w of
              (Inl err, w1) \<Rightarrow> (Inl err, w1)
            | (Inr (allRawScenes, storySummary), w1) \<Rightarrow>
                (Inr \<lparr>story_summary = storySummary, scenes = mapJsonToScenes allRawScenes\<rparr>, w1)))"

text \<open>\<open>generateScript\<close> of src/services/geminiService.ts (lines 199-309): one request for
  the whole script.\<close>

definition generateScript_service ::
  "ai \<Rightarrow> options \<Rightarrow> jstring \<Rightarrow> world \<Rightarrow> (js_error + Script) \<times> world" where
  "generateScript_service ai options apiKey w =
     (if apiKey = [] then (Inl (Error msg_no_api_key), w)
      else
        (case ask ai (WholePrompt (idea options) (videoStyle options) (promptCount options)
                        (promptType options) (dialogueLanguage options))
                (emit [Progress Analysing, Progress Creating] w) of
           (Threw e, w1) \<Rightarrow>
             (Inl (Error (S ''Failed to generate script: '' @ templateOf (message e))), emit [ConsoleError e] w1)
         | (NoText, w1) \<Rightarrow>
             (Inl (Error (S ''Failed to generate script: No response from AI'')),
              emit [ConsoleError (Error (S ''No response from AI''))] w1)
         | (Json scs sm, w1) \<Rightarrow>
             (case scs of
                None \<Rightarrow>
                  (Inl (Error (S ''Failed to generate script: Invalid JSON format received'')),
                   emit [ConsoleError (Error (S ''Invalid JSON format received''))] w1)
              | Some l \<Rightarrow>
                  (Inr \<lparr>story_summary = orEmpty sm, scenes = mapJsonToScenes_service l\<rparr>, w1))))"

text \<open>Line 694 of src/App.tsx and line 382 of src/services/geminiService.ts:
  \<open>mapped.map((s, i) => ({...s, scene_number: startNum + i}))\<close>.\<close>

definition renumber :: "int \<Rightarrow> Scene list \<Rightarrow> Scene list" where
  "renumber startNum mapped = mapIndexed (\<lambda>s i. s\<lparr>scene_number := startNum + int i\<rparr>) mapped"

text \<open>\<open>extendScript\<close> of src/App.tsx (lines 639-698).\<close>

definition extendScript ::
  "ai \<Rightarrow> Scene \<Rightarrow> jstring \<Rightarrow> int \<Rightarrow> options \<Rightarrow> jstring \<Rightarrow> world \<Rightarrow> (js_error + Scene list) \<times> world" where
  "extendScript ai lastScene extensionIdea count originalOptions apiKey w =
     (if apiKey = [] then (Inl (Error msg_no_api_key), w)
      else
        (let startNum = scene_number lastScene + 1
         in case ask ai (ExtendPrompt (scene_number lastScene) (script_description lastScene)
                           extensionIdea count (videoStyle originalOptions)) w of
              (Threw e, w1) \<Rightarrow> (Inl (Error (S ''Extension failed: '' @ templateOf (message e))), w1)
            | (NoText, w1) \<Rightarrow> (Inl (Error (S ''Extension failed: No response'')), w1)
            | (Json scs sm, w1) \<Rightarrow>
                (Inr (renumber startNum
                        (mapJsonToScenes (case scs of None \<Rightarrow> [] | Some l \<Rightarrow> l))), w1)))"

text \<open>\<open>extendScript\<close> of src/services/geminiService.ts (lines 311-387).\<close>

definition extendScript_service ::
  "ai \<Rightarrow> Scene \<Rightarrow> jstring \<Rightarrow> int \<Rightarrow> options \<Rightarrow> jstring \<Rightarrow> world \<Rightarrow> (js_error + Scene list) \<times> world" where
  "extendScript_service ai lastScene extensionIdea count originalOptions apiKey w =
     (if apiKey = [] then (Inl (Error msg_no_api_key), w)
      else
        (case ask ai (ExtendPrompt_service (scene_number lastScene) (script_description lastScene)
                        extensionIdea count (videoStyle originalOptions)) w of
           (Threw e, w1) \<Rightarrow> (Inl (Error (S ''Extension failed: '' @ templateOf (message e))), w1)
         | (NoText, w1) \<Rightarrow> (Inl (Error (S ''Extension failed: No response'')), w1)
         | (Json scs sm, w1) \<Rightarrow>
             (let startNum = scene_number lastScene + 1
              in (Inr (renumber startNum
                         (mapJsonToScenes_service (case scs of None \<Rightarrow> [] | Some l \<Rightarrow> l))), w1))))"

subsection \<open>Observations on a run\<close>

text \<open>The batch requests among the events, each with the first scene number and the
  number of scenes it asks for.\<close>

fun batchRequests :: "event list \<Rightarrow> (int \<times> int) list" where
  "batchRequests [] = []"
| "batchRequests (Requested (FirstBatch startIndex count i v d) # es) =
     (startIndex, count) # batchRequests es"
| "batchRequests (Requested (NextBatch startIndex count s c i v d) # es) =
     (startIndex, count) # batchRequests es"
| "batchRequests (e # es) = batchRequests es"

text \<open>The waits among the events, in milliseconds.\<close>

fun waits :: "event list \<Rightarrow> nat list" where
  "waits [] = []"
| "waits (Delayed ms # es) = ms # waits es"
| "waits (e # es) = waits es"

text \<open>The number of scenes a request asks for.\<close>

fun requested :: "request \<Rightarrow> int" where
  "requested (FirstBatch startIndex count i v d) = count"
| "requested (NextBatch startIndex count s c i v d) = count"
| "requested (ExtendPrompt n desc ext count v) = count"
| "requested (ExtendPrompt_service n desc ext count v) = count"
| "requested (WholePrompt i v pc pt d) = targetCountOf pc"

text \<open>A service that answers every request, at every time, with a response holding
  exactly as many scenes as the request asks for.\<close>

definition answers_in_full :: "ai \<Rightarrow> bool" where
  "answers_in_full ai =
     (\<forall>k req. case ai k req of
                 Json (Some scs) sm \<Rightarrow> length scs = nat (requested req)
               | _ \<Rightarrow> False)"

text \<open>The counts for which the source falls back to 5: missing, not a number, or
  \<open>\<le> 0\<close>; for a string, by what \<open>parseInt(_, 10)\<close> reads from it.\<close>

fun bad_count :: "prompt_count \<Rightarrow> bool" where
  "bad_count CountMissing = True"
| "bad_count CountNaN = True"
| "bad_count (CountNumber n) = (n \<le> 0)"
| "bad_count (CountString s) = (case parseInt s 10 of None \<Rightarrow> True | Some n \<Rightarrow> n \<le> 0)"

subsection \<open>Sample inputs\<close>

text \<open>Options asking for 23 scenes, the scene number 23 of a script, and the state of
  the world before a call.\<close>

definition sample_options :: options where
  "sample_options =
     \<lparr>idea = S ''a cat learns to sail'', videoStyle = S ''anime'', promptCount = CountNumber 23,
      dialogueLanguage = S ''English'', promptType = None\<rparr>"

definition scene23 :: Scene where
  "scene23 =
     \<lparr>scene_number = 23, script_description = S ''The cat reaches the harbour'',
      veo_prompt = jsonPrompt empty_scene 22, wishk_prompt = []\<rparr>"

definition start :: world where
  "start = \<lparr>calls = 0, events = []\<rparr>"

text \<open>A raw scene that reports the scene number 99.\<close>

definition misnumbered :: raw_scene where
  "misnumbered = empty_scene\<lparr>scene := Some 99\<rparr>"

text \<open>A service that sends as many scenes as it is asked for, each reporting the number
  99; one that sends two scenes whatever it is asked for; and one that fails every
  request as overloaded.\<close>

definition obliging :: ai where
  "obliging k req = Json (Some (replicate (nat (requested req)) misnumbered)) (Some (S ''A story''))"

definition terse :: ai where
  "terse k req = Json (Some [misnumbered, misnumbered]) (Some (S ''A story''))"

definition overloaded_error :: js_error where
  "overloaded_error =
     \<lparr>message = Some (S ''got status: 503 UNAVAILABLE. The model is overloaded. Please try again later.''),
      stringified = S ''{}'', details = []\<rparr>"

definition busy :: ai where
  "busy k req = Threw overloaded_error"

text \<open>Errors of the three kinds of wait: a quota error that advises a wait, a quota error
  that does not, and an error that is neither quota nor overload.\<close>

definition advised_error :: js_error where
  "advised_error =
     \<lparr>message = Some (S ''429 RESOURCE_EXHAUSTED: You exceeded your current quota. Please retry in 12s.''),
      stringified = S ''{}'', details = []\<rparr>"

definition quota_error :: js_error where
  "quota_error = \<lparr>message = Some (S ''429 Too Many Requests''), stringified = S ''{}'', details = []\<rparr>"

definition fatal_error :: js_error where
  "fatal_error = \<lparr>message = Some (S ''API key not valid''), stringified = S ''{}'', details = []\<rparr>"

text \<open>A quota error that advises a wait of 2.5 s; one that advises a wait written with
  19 digits; and an error whose only sign of a quota is the word "Quota" with a capital.\<close>

definition fractional_error :: js_error where
  "fractional_error =
     \<lparr>message = Some (S ''429 RESOURCE_EXHAUSTED: Quota exceeded, quota resets soon. Please retry in 2.5s.''),
      stringified = S ''{}'', details = []\<rparr>"

definition long_advice_error :: js_error where
  "long_advice_error =
     \<lparr>message = Some (S ''429 RESOURCE_EXHAUSTED. Please retry in 12.00000000000000001s.''),
      stringified = S ''{}'', details = []\<rparr>"

definition capital_error :: js_error where
  "capital_error =
     \<lparr>message = Some (S ''Quota exceeded for this project. Please try again later.''),
      stringified = S ''{}'', details = []\<rparr>"

subsection \<open>The wording of the specification\<close>

text \<open>The number \<open>N\<close> that the digits \<open>ds\<close> before and \<open>fs\<close> after the decimal point
  write, and the wait of the specification for it: \<open>ceil(N)\<close> seconds and 3 seconds more,
  in milliseconds.\<close>

definition decimalValue :: "jstring \<Rightarrow> jstring \<Rightarrow> rat" where
  "decimalValue ds fs = of_nat (digitsValue 10 ds) + of_nat (digitsValue 10 fs) / 10 ^ length fs"

definition spec_advised_wait :: "jstring \<Rightarrow> jstring \<Rightarrow> nat" where
  "spec_advised_wait ds fs = (nat \<lceil>decimalValue ds fs\<rceil> + 3) * 1000"

text \<open>The classification of the specification: the error text is scanned for the known
  substrings without regard to case.\<close>

definition includesCI :: "jstring \<Rightarrow> jstring \<Rightarrow> bool" where
  "includesCI s sub = includesSub (map lowerAscii s) (map lowerAscii sub)"

definition spec_classified :: "jstring \<Rightarrow> bool" where
  "spec_classified errorText =
     (includesCI errorText (S ''429'') \<or> includesCI errorText (S ''quota'')
      \<or> includesCI errorText (S ''RESOURCE_EXHAUSTED'')
      \<or> includesCI errorText (S ''503'') \<or> includesCI errorText (S ''overloaded''))"

text \<open>The counts that are "missing, non-numeric, or \<open>\<le> 0\<close>" when a string counts as
  numeric only if it is, as a whole, an optional sign and decimal digits.\<close>

definition isIntegerLiteral :: "jstring \<Rightarrow> bool" where
  "isIntegerLiteral s = (snd (stripSign s) \<noteq> [] \<and> list_all isDecimalDigit (snd (stripSign s)))"

fun spec_bad_count :: "prompt_count \<Rightarrow> bool" where
  "spec_bad_count CountMissing = True"
| "spec_bad_count CountNaN = True"
| "spec_bad_count (CountNumber n) = (n \<le> 0)"
| "spec_bad_count (CountString s) =
     (\<not> isIntegerLiteral s \<or> (case parseInt s 10 of None \<Rightarrow> True | Some n \<Rightarrow> n \<le> 0))"

section \<open>Properties of the cleaning functions\<close>

text \<open>Every white-space code unit left by \<open>collapseWs\<close> is the space U+0020, and never two
  in a row.\<close>

lemma collapseWs_spaces: "c \<in> set (collapseWs s) \<Longrightarrow> is_space c \<Longrightarrow> c = 32"
  by (induction s rule: collapseWs.induct) (auto split: if_splits)

lemma collapseWs_head:
  "collapseWs s = a # r \<Longrightarrow> is_space a \<Longrightarrow> \<not> starts_ws r"
proof (induction s arbitrary: a r rule: collapseWs.induct)
  case 1
  then show ?case by simp
next
  case (2 c cs)
  show ?case
  proof (cases "is_space c")
    case True
    with 2 have r: "r = collapseWs (dropWhile is_space cs)" by simp
    show ?thesis
    proof (cases "dropWhile is_space cs")
      case Nil
      with r show ?thesis by (simp add: starts_ws_def)
    next
      case (Cons d ds)
      then have "\<not> is_space d" by (metis hd_dropWhile list.sel(1) list.distinct(1))
      with r Cons show ?thesis by (simp add: starts_ws_def)
    qed
  next
    case False
    with 2 show ?thesis by simp
  qed
qed

lemma collapseWs_not_adjacent: "\<not> adjacent_ws (collapseWs s)"
proof (induction s rule: collapseWs.induct)
  case 1
  then show ?case by simp
next
  case (2 c cs)
  show ?case
  proof (cases "is_space c")
    case True
    let ?r = "collapseWs (dropWhile is_space cs)"
    have tl: "\<not> adjacent_ws ?r" using 2 True by simp
    have hd: "\<not> starts_ws ?r"
      using collapseWs_head [of "c # cs" 32 ?r] True by (simp add: is_space_def)
    from tl hd True show ?thesis
      by (cases ?r) (auto simp: starts_ws_def)
  next
    case False
    with 2 show ?thesis by (cases "collapseWs cs") auto
  qed
qed

lemma adjacent_ws_tl: "\<not> adjacent_ws (a # s) \<Longrightarrow> \<not> adjacent_ws s"
  by (cases s) auto

lemma adjacent_ws_dropWhile: "\<not> adjacent_ws s \<Longrightarrow> \<not> adjacent_ws (dropWhile P s)"
  by (induction s) (auto dest: adjacent_ws_tl)

lemma adjacent_ws_append:
  "adjacent_ws (s @ [a, b]) = (adjacent_ws (s @ [a]) \<or> (is_space a \<and> is_space b))"
  by (induction s rule: adjacent_ws.induct) auto

lemma adjacent_ws_rev: "adjacent_ws (rev s) = adjacent_ws s"
proof (induction s rule: adjacent_ws.induct)
  case (1 a b cs)
  have "adjacent_ws (rev (a # b # cs)) = adjacent_ws ((rev cs) @ [b, a])" by simp
  also have "\<dots> = (adjacent_ws (rev cs @ [b]) \<or> (is_space b \<and> is_space a))"
    by (rule adjacent_ws_append)
  also have "\<dots> = (adjacent_ws (b # cs) \<or> (is_space a \<and> is_space b))"
    using 1 by auto
  finally show ?case by auto
qed simp_all

lemma trim_not_adjacent: "\<not> adjacent_ws s \<Longrightarrow> \<not> adjacent_ws (trim s)"
  unfolding trim_def by (simp add: adjacent_ws_rev adjacent_ws_dropWhile)

lemma starts_ws_dropWhile: "\<not> starts_ws (dropWhile is_space s)"
proof (cases "dropWhile is_space s")
  case Nil
  show ?thesis unfolding starts_ws_def Nil by simp
next
  case (Cons d ds)
  then have "\<not> is_space d" by (metis hd_dropWhile list.sel(1) list.distinct(1))
  then show ?thesis unfolding starts_ws_def Cons by simp
qed

lemma trim_not_ends: "\<not> ends_ws (trim s)"
  unfolding trim_def ends_ws_def by (simp add: starts_ws_dropWhile)

lemma starts_ws_last_dropWhile:
  "\<not> starts_ws s \<Longrightarrow> \<not> starts_ws (rev (dropWhile P (rev s)))"
proof (cases s)
  case Nil
  then show ?thesis by (simp add: starts_ws_def)
next
  case (Cons a r)
  assume h: "\<not> starts_ws s"
  show ?thesis
  proof (cases "dropWhile P (rev s)")
    case Nil
    show ?thesis unfolding starts_ws_def Nil by simp
  next
    case (Cons d ds)
    have "\<exists>zs. rev s = zs @ dropWhile P (rev s)"
      by (metis takeWhile_dropWhile_id)
    then obtain zs where "rev s = zs @ d # ds" using Cons by auto
    then have "s = rev ds @ d # rev zs" by (metis rev_append rev.simps(2) rev_rev_ident append_Cons append_Nil append.assoc)
    with \<open>s = a # r\<close> have "hd (rev ds @ [d]) = a" by (cases "rev ds") auto
    with h \<open>s = a # r\<close> Cons show ?thesis
      by (cases "rev ds") (auto simp: starts_ws_def)
  qed
qed

lemma trim_not_starts: "\<not> starts_ws (trim s)"
  unfolding trim_def by (rule starts_ws_last_dropWhile) (rule starts_ws_dropWhile)

lemma trim_subset: "set (trim s) \<subseteq> set s"
proof -
  have "set (dropWhile is_space (rev (dropWhile is_space s))) \<subseteq> set (rev (dropWhile is_space s))"
    by (rule set_dropWhileD [THEN subsetI])
  moreover have "set (dropWhile is_space s) \<subseteq> set s"
    by (rule set_dropWhileD [THEN subsetI])
  ultimately show ?thesis unfolding trim_def by auto
qed

lemma collapseWs_no_line_break: "\<not> has_line_break (collapseWs s)"
  unfolding has_line_break_def
  using collapseWs_spaces [of 10 s] collapseWs_spaces [of 13 s]
  by (auto simp: is_space_def)

text \<open>
  C6. For every input (a string, or undefined/null), the output of \<open>cleanForJson\<close> holds no
  line-break code unit (CR or LF), no two neighbouring white-space code units, and neither
  starts nor ends with white space.
\<close>

theorem cleanForJson_single_line:
  "\<not> has_line_break (cleanForJson inp) \<and> \<not> adjacent_ws (cleanForJson inp)
   \<and> \<not> starts_ws (cleanForJson inp) \<and> \<not> ends_ws (cleanForJson inp)"
proof (cases inp)
  case None
  then show ?thesis
    by (simp add: cleanForJson_def has_line_break_def starts_ws_def ends_ws_def)
next
  case (Some t)
  let ?c = "collapseWs (replaceLineBreaks t)"
  have "\<not> has_line_break (trim ?c)"
    using collapseWs_no_line_break [of "replaceLineBreaks t"] trim_subset [of ?c]
    unfolding has_line_break_def by auto
  moreover have "\<not> adjacent_ws (trim ?c)"
    by (rule trim_not_adjacent) (rule collapseWs_not_adjacent)
  ultimately show ?thesis
    using Some trim_not_starts [of ?c] trim_not_ends [of ?c]
    by (simp add: cleanForJson_def has_line_break_def starts_ws_def ends_ws_def)
qed

section \<open>The offline key check\<close>

lemma hashStep_mult: "hashStep h c = h * 31 + of_nat c"
  by (simp add: hashStep_def push_bit_eq_mult)

lemmas sig_eval = expectedSig_def simpleHash_def hashStep_mult APP_SECRET_def toUpperCase_def
  toHex.simps hexDigit_def

lemmas parseInt_eval = parseInt_def stripSign_def stripHexPrefix_def isDigitOf_def digitVal_def
  digitsValue_def is_space_def

text \<open>Three signed keys: one that expires at 1766812569344 ms (hexadecimal 19B5E3C4F00),
  one whose expiry field is no number, one without limit.\<close>

lemma sig_timed: "expectedSig (S ''19B5E3C4F00'') (S ''M1'') = S ''2D752B80''"
  by (simp add: sig_eval)

lemma sig_garbled: "expectedSig (S ''ZZ'') (S ''M1'') = S ''1CF97674''"
  by (simp add: sig_eval)

lemma sig_lifetime: "expectedSig (S ''LIFETIME'') (S ''VIP'') = S ''CA850AC''"
  by (simp add: sig_eval)

lemma parse_timed: "parseInt (S ''19B5E3C4F00'') 16 = Some 1766812569344"
  by (simp add: parseInt_eval)

lemma parse_garbled: "parseInt (S ''ZZ'') 16 = None"
  by (simp add: parseInt_eval)

lemma parse_lifetime: "parseInt (S ''LIFETIME'') 16 = None"
  by (simp add: parseInt_eval)

lemma split_timed:
  "split 45 (S ''SK-19B5E3C4F00-M1-2D752B80'') =
     [S ''SK'', S ''19B5E3C4F00'', S ''M1'', S ''2D752B80'']"
  by simp

lemma split_garbled:
  "split 45 (S ''SK-ZZ-M1-1CF97674'') = [S ''SK'', S ''ZZ'', S ''M1'', S ''1CF97674'']"
  by simp

lemma split_lifetime:
  "split 45 (S ''SK-LIFETIME-VIP-CA850AC'') = [S ''SK'', S ''LIFETIME'', S ''VIP'', S ''CA850AC'']"
  by simp

text \<open>A key that validates has exactly four segments, the first being \<open>SK\<close>.\<close>

lemma verifyKeyOffline_needs_four_segments:
  "valid (verifyKeyOffline now keyString) \<Longrightarrow>
     \<exists>expHex typeCode signature. split 45 keyString = [S ''SK'', expHex, typeCode, signature]"
  by (auto simp: verifyKeyOffline_def split: list.splits if_splits)

text \<open>
  C3, as the code has it. For every key of four segments with the prefix \<open>SK\<close>, offline
  validation succeeds if and only if the signature segment equals the recomputed upper-case
  hexadecimal hash of \<open>expHex + "-" + typeCode + secret\<close> and the expiry field is the
  unlimited literal, or does not decode to a number, or decodes to a time stamp that the
  current time does not exceed (the current time may equal it). In particular a correctly
  signed unlimited key validates at every time, and a key whose decoded expiry is strictly
  in the past does not validate.
\<close>

theorem verifyKeyOffline_valid_iff:
  assumes "split 45 keyString = [S ''SK'', expHex, typeCode, signature]"
  shows
    "valid (verifyKeyOffline now keyString) =
       (signature = expectedSig expHex typeCode
        \<and> (expHex = S ''LIFETIME''
           \<or> (case parseInt expHex 16 of None \<Rightarrow> True | Some expiresAt \<Rightarrow> now \<le> expiresAt)))
     \<and> (expHex = S ''LIFETIME'' \<and> signature = expectedSig expHex typeCode
           \<longrightarrow> valid (verifyKeyOffline now keyString))
     \<and> ((case parseInt expHex 16 of None \<Rightarrow> False | Some expiresAt \<Rightarrow> expiresAt < now)
           \<longrightarrow> \<not> valid (verifyKeyOffline now keyString))"
proof -
  have "valid (verifyKeyOffline now keyString) =
       (signature = expectedSig expHex typeCode
        \<and> (expHex = S ''LIFETIME''
           \<or> (case parseInt expHex 16 of None \<Rightarrow> True | Some expiresAt \<Rightarrow> now \<le> expiresAt)))"
    using assms by (auto simp: verifyKeyOffline_def split: option.splits)
  moreover have "expHex = S ''LIFETIME'' \<and> signature = expectedSig expHex typeCode
           \<longrightarrow> valid (verifyKeyOffline now keyString)"
    using assms by (auto simp: verifyKeyOffline_def split: option.splits)
  moreover have "(case parseInt expHex 16 of None \<Rightarrow> False | Some expiresAt \<Rightarrow> expiresAt < now)
           \<longrightarrow> \<not> valid (verifyKeyOffline now keyString)"
    using assms parse_lifetime by (auto simp: verifyKeyOffline_def split: option.splits)
  ultimately show ?thesis by blast
qed

text \<open>The key that expires at 1766812569344 ms validates at that very millisecond and no
  longer one millisecond later.\<close>

theorem verifyKeyOffline_valid_iff_witness:
  "split 45 (S ''SK-19B5E3C4F00-M1-2D752B80'') =
     [S ''SK'', S ''19B5E3C4F00'', S ''M1'', S ''2D752B80'']
   \<and> valid (verifyKeyOffline 1766812569344 (S ''SK-19B5E3C4F00-M1-2D752B80''))
   \<and> \<not> valid (verifyKeyOffline 1766812569345 (S ''SK-19B5E3C4F00-M1-2D752B80''))"
  using verifyKeyOffline_valid_iff [OF split_timed, of 1766812569344]
    verifyKeyOffline_valid_iff [OF split_timed, of 1766812569345]
    sig_timed parse_timed split_timed
  by simp

text \<open>
  C3 as the specification words it fails: at the millisecond of its expiry the key is
  still accepted although the current time is not strictly less than the expiry, and a
  correctly signed key whose expiry field decodes to no number is accepted at any time.
\<close>

theorem verifyKeyOffline_boundary_counterexample:
  "split 45 (S ''SK-19B5E3C4F00-M1-2D752B80'') =
     [S ''SK'', S ''19B5E3C4F00'', S ''M1'', S ''2D752B80'']
   \<and> valid (verifyKeyOffline 1766812569344 (S ''SK-19B5E3C4F00-M1-2D752B80''))
   \<and> \<not> spec_validate 1766812569344 (S ''19B5E3C4F00'') (S ''M1'') (S ''2D752B80'')
   \<and> split 45 (S ''SK-ZZ-M1-1CF97674'') = [S ''SK'', S ''ZZ'', S ''M1'', S ''1CF97674'']
   \<and> valid (verifyKeyOffline 1766812569344 (S ''SK-ZZ-M1-1CF97674''))
   \<and> \<not> spec_validate 1766812569344 (S ''ZZ'') (S ''M1'') (S ''1CF97674'')"
  using sig_timed sig_garbled parse_timed parse_garbled
  by (simp add: verifyKeyOffline_def spec_validate_def)

section \<open>The license guard\<close>

text \<open>Which answers of the server are the authoritative INVALID, and which are
  indeterminate.\<close>

lemma verifyKeyOnline_invalid_iff:
  "authoritative_invalid (verifyKeyOnline h) =
     (case h of
        FetchFailed \<Rightarrow> False
      | Response st b \<Rightarrow>
          st = 403 \<or> st = 404 \<or> (ok st \<and> (case b of BodyUnreadable \<Rightarrow> False | Body v m \<Rightarrow> v)))"
  by (auto simp: verifyKeyOnline_def ok_def split: http.splits body.splits)

lemma verifyKeyOnline_indeterminate_iff:
  "indeterminate (verifyKeyOnline h) =
     (case h of
        FetchFailed \<Rightarrow> True
      | Response st b \<Rightarrow> if ok st then b = BodyUnreadable else st \<noteq> 403 \<and> st \<noteq> 404)"
  by (auto simp: verifyKeyOnline_def ok_def split: http.splits body.splits)

text \<open>
  C2. Let a non-empty key be persisted, and let the server's answer for it be the
  authoritative INVALID (status 403 or 404, or a 2xx body with \<open>valid: false\<close>). Then
  \<open>checkSavedKey\<close> clears the persisted key, leaves \<open>isUnlocked\<close> as it was (false, when the
  component has just been mounted), and its only verification is the online one. In
  general the offline verifier is called exactly when the online outcome is indeterminate
  (\<open>NETWORK_ERROR\<close> or \<open>ERROR\<close>), and then once, after the online call. The same holds of
  \<open>handleUnlock\<close> for the typed key, trimmed and in upper case: on INVALID nothing is
  persisted, the guard is not unlocked and the offline verifier is not called.
\<close>

theorem invalid_key_never_falls_back:
  assumes saved: "localStorage g license_slot = Some savedKey" "savedKey \<noteq> []"
    and typed: "toUpperCase (trim (keyInput g')) = inputClean" "inputClean \<noteq> []"
  shows
    "authoritative_invalid (verifyKeyOnline (net savedKey)) =
       (case net savedKey of
          FetchFailed \<Rightarrow> False
        | Response st b \<Rightarrow>
            st = 403 \<or> st = 404
            \<or> (ok st \<and> (case b of BodyUnreadable \<Rightarrow> False | Body v m \<Rightarrow> v)))
     \<and> (authoritative_invalid (verifyKeyOnline (net savedKey)) \<longrightarrow>
        localStorage (checkSavedKey net now g) license_slot = None
        \<and> isUnlocked (checkSavedKey net now g) = isUnlocked g
        \<and> verifications (checkSavedKey net now g) = verifications g @ [Online savedKey])
     \<and> verifications (checkSavedKey net now g) =
         verifications g @ Online savedKey #
           (if indeterminate (verifyKeyOnline (net savedKey)) then [Offline savedKey] else [])
     \<and> (authoritative_invalid (verifyKeyOnline (net inputClean)) \<longrightarrow>
        localStorage (handleUnlock net now g') = localStorage g'
        \<and> isUnlocked (handleUnlock net now g') = isUnlocked g'
        \<and> verifications (handleUnlock net now g') = verifications g' @ [Online inputClean])
     \<and> verifications (handleUnlock net now g') =
         verifications g' @ Online inputClean #
           (if indeterminate (verifyKeyOnline (net inputClean)) then [Offline inputClean] else [])"
proof -
  have c: "verifications (checkSavedKey net now g) =
         verifications g @ Online savedKey #
           (if indeterminate (verifyKeyOnline (net savedKey)) then [Offline savedKey] else [])"
    using saved by (cases "verifyKeyOnline (net savedKey)") (simp_all add: checkSavedKey_def Let_def)
  have ci: "authoritative_invalid (verifyKeyOnline (net savedKey)) \<longrightarrow>
        localStorage (checkSavedKey net now g) license_slot = None
        \<and> isUnlocked (checkSavedKey net now g) = isUnlocked g
        \<and> verifications (checkSavedKey net now g) = verifications g @ [Online savedKey]"
    using saved by (cases "verifyKeyOnline (net savedKey)") (simp_all add: checkSavedKey_def Let_def)
  have h: "verifications (handleUnlock net now g') =
         verifications g' @ Online inputClean #
           (if indeterminate (verifyKeyOnline (net inputClean)) then [Offline inputClean] else [])"
    using typed
    by (cases "verifyKeyOnline (net inputClean)")
       (simp_all add: handleUnlock_def Let_def split: verdict.splits)
  have hi: "authoritative_invalid (verifyKeyOnline (net inputClean)) \<longrightarrow>
        localStorage (handleUnlock net now g') = localStorage g'
        \<and> isUnlocked (handleUnlock net now g') = isUnlocked g'
        \<and> verifications (handleUnlock net now g') = verifications g' @ [Online inputClean]"
    using typed
    by (cases "verifyKeyOnline (net inputClean)") (simp_all add: handleUnlock_def Let_def)
  from c ci h hi verifyKeyOnline_invalid_iff [of "net savedKey"] show ?thesis by blast
qed

text \<open>
  A persisted key that the offline check would accept (it is correctly signed and has not
  expired), answered by the server with status 403: the slot is cleared, the guard stays
  locked and only the online verification took place. The same key typed in lower case
  with blanks around it and answered with \<open>{valid: false}\<close> is not persisted.
\<close>

theorem invalid_key_never_falls_back_witness:
  "valid (verifyKeyOffline 1766812569344 (S ''SK-19B5E3C4F00-M1-2D752B80''))
   \<and> localStorage
        (checkSavedKey (\<lambda>k. Response 403 BodyUnreadable) 1766812569344
           (mounted [license_slot \<mapsto> S ''SK-19B5E3C4F00-M1-2D752B80'']))
        license_slot = None
   \<and> \<not> isUnlocked
        (checkSavedKey (\<lambda>k. Response 403 BodyUnreadable) 1766812569344
           (mounted [license_slot \<mapsto> S ''SK-19B5E3C4F00-M1-2D752B80'']))
   \<and> verifications
        (checkSavedKey (\<lambda>k. Response 403 BodyUnreadable) 1766812569344
           (mounted [license_slot \<mapsto> S ''SK-19B5E3C4F00-M1-2D752B80'']))
       = [Online (S ''SK-19B5E3C4F00-M1-2D752B80'')]
   \<and> verifications
        (handleUnlock (\<lambda>k. Response 403 BodyUnreadable) 1766812569344
           ((mounted Map.empty)\<lparr>keyInput := S '' sk-19b5e3c4f00-m1-2d752b80 ''\<rparr>))
       = [Online (S ''SK-19B5E3C4F00-M1-2D752B80'')]
   \<and> localStorage
        (handleUnlock (\<lambda>k. Response 403 BodyUnreadable) 1766812569344
           ((mounted Map.empty)\<lparr>keyInput := S '' sk-19b5e3c4f00-m1-2d752b80 ''\<rparr>))
        license_slot = None"
proof -
  have k: "toUpperCase (trim (keyInput ((mounted Map.empty)\<lparr>keyInput := S '' sk-19b5e3c4f00-m1-2d752b80 ''\<rparr>)))
             = S ''SK-19B5E3C4F00-M1-2D752B80''"
    by (simp add: toUpperCase_def trim_def is_space_def)
  have s: "localStorage (mounted [license_slot \<mapsto> S ''SK-19B5E3C4F00-M1-2D752B80'']) license_slot
             = Some (S ''SK-19B5E3C4F00-M1-2D752B80'')"
    by (simp add: mounted_def)
  have v: "valid (verifyKeyOffline 1766812569344 (S ''SK-19B5E3C4F00-M1-2D752B80''))"
    using sig_timed parse_timed by (simp add: verifyKeyOffline_def)
  have i: "authoritative_invalid (verifyKeyOnline (Response 403 BodyUnreadable))"
    by (simp add: verifyKeyOnline_def ok_def)
  show ?thesis
    using invalid_key_never_falls_back [OF s _ k, of "\<lambda>k. Response 403 BodyUnreadable" 1766812569344] v i
    by (simp add: mounted_def)
qed

section \<open>The scene description\<close>

text \<open>The first and the last segment are never empty.\<close>

lemma showNat_nonempty: "showNat n \<noteq> []"
  by (subst showNat.simps) simp

lemma sceneLine_nonempty: "sceneLine item index \<noteq> []"
  by (simp add: sceneLine_def lit_scene_def)

lemma dialogueLine_nonempty: "dialogueLine item \<noteq> []"
  by (simp add: dialogueLine_def Let_def lit_dialogue_open_def lit_no_dialogue_def)

lemma filterBoolean_segments:
  "a \<noteq> [] \<Longrightarrow> d \<noteq> [] \<Longrightarrow>
     filterBoolean (a # ms @ [d]) = a # filterBoolean ms @ [d]"
  by (simp add: filterBoolean_def)

lemma description_segments:
  "join sep (filterBoolean [sceneLine item index, c, e, ch, cam, st, dialogueLine item]) =
     join sep (sceneLine item index # filterBoolean [c, e, ch, cam, st] @ [dialogueLine item])"
  using filterBoolean_segments [OF sceneLine_nonempty dialogueLine_nonempty, of item index "[c, e, ch, cam, st]" item]
  by simp

lemma description_with_continuity:
  "join sep (filterBoolean [sceneLine item index, c, e, ch, cam, st, dialogueLine item]) =
     join sep (sceneLine item index # (if c = [] then [] else [c])
               @ filterBoolean [e, ch, cam, st] @ [dialogueLine item])"
  by (simp add: filterBoolean_def sceneLine_nonempty dialogueLine_nonempty)

text \<open>\<open>mapFrom\<close> keeps the length and hands each item its position.\<close>

lemma length_mapFrom: "length (mapFrom k f xs) = length xs"
  by (induction xs arbitrary: k) auto

lemma mapFrom_nth: "i < length xs \<Longrightarrow> mapFrom k f xs ! i = f (xs ! i) (k + i)"
proof (induction xs arbitrary: k i)
  case Nil
  then show ?case by simp
next
  case (Cons x xs)
  then show ?case by (cases i) auto
qed

text \<open>One more segment makes the joined string longer.\<close>

lemma join_Cons_nonempty: "ys \<noteq> [] \<Longrightarrow> join sep (x # ys) = x @ sep @ join sep ys"
  by (cases ys) auto

lemma length_join_extra:
  "ys \<noteq> [] \<Longrightarrow> length (join sep (x # m # ys)) = length (join sep (x # ys)) + length m + length sep"
  by (simp add: join_Cons_nonempty)

text \<open>The two callbacks differ in the continuity segment only, and there only for an
  item after the first whose cleaned continuity reference is empty.\<close>

lemma continuityLine_same:
  "index = 0 \<or> cleanAttribute (continuity_reference item) \<noteq> [] \<Longrightarrow>
     continuityLine_service item index = continuityLine item index"
  by (auto simp: continuityLine_service_def continuityLine_def Let_def)

lemma sceneOf_agree_iff:
  "(sceneOf_service item index = sceneOf item index) =
     (index = 0 \<or> cleanAttribute (continuity_reference item) \<noteq> [])"
proof (cases "index = 0 \<or> cleanAttribute (continuity_reference item) \<noteq> []")
  case True
  then show ?thesis
    by (simp add: sceneOf_service_def sceneOf_def continuityLine_same)
next
  case False
  then have s: "continuityLine_service item index = S ''Continuity: [Missing]''"
    and a: "continuityLine item index = []"
    by (auto simp: continuityLine_service_def continuityLine_def Let_def)
  let ?rest = "filterBoolean [envLine item, charLine item, cameraLine item, styleLine item] @ [dialogueLine item]"
  have ds: "script_description (sceneOf_service item index) =
              join (S '' | '') (sceneLine item index # S ''Continuity: [Missing]'' # ?rest)"
    using s by (simp add: sceneOf_service_def description_with_continuity)
  have da: "script_description (sceneOf item index) = join (S '' | '') (sceneLine item index # ?rest)"
    using a by (simp add: sceneOf_def description_with_continuity)
  have "length (script_description (sceneOf_service item index)) \<noteq>
          length (script_description (sceneOf item index))"
    unfolding ds da by (subst length_join_extra) simp_all
  then have "sceneOf_service item index \<noteq> sceneOf item index" by auto
  with False show ?thesis by simp
qed

lemma mapFrom_agree_iff:
  "0 < k \<Longrightarrow>
     (mapFrom k sceneOf_service raw = mapFrom k sceneOf raw) =
       list_all (\<lambda>item. cleanAttribute (continuity_reference item) \<noteq> []) raw"
  by (induction raw arbitrary: k) (auto simp: sceneOf_agree_iff)

lemma mapJsonToScenes_agree_iff:
  "(mapJsonToScenes_service rawScenes = mapJsonToScenes rawScenes) =
     list_all (\<lambda>item. cleanAttribute (continuity_reference item) \<noteq> []) (tl rawScenes)"
proof (cases rawScenes)
  case Nil
  then show ?thesis by (simp add: mapJsonToScenes_service_def mapJsonToScenes_def mapIndexed_def)
next
  case (Cons x xs)
  then show ?thesis
    using mapFrom_agree_iff [of "Suc 0" xs] sceneOf_agree_iff [of x 0]
    by (simp add: mapJsonToScenes_service_def mapJsonToScenes_def mapIndexed_def)
qed

lemma mapFrom_fields_agree:
  "map scene_number (mapFrom k sceneOf_service raw) = map scene_number (mapFrom k sceneOf raw)
   \<and> map veo_prompt (mapFrom k sceneOf_service raw) = map veo_prompt (mapFrom k sceneOf raw)
   \<and> map wishk_prompt (mapFrom k sceneOf_service raw) = map wishk_prompt (mapFrom k sceneOf raw)"
  by (induction raw arbitrary: k) (auto simp: sceneOf_service_def sceneOf_def)

text \<open>The segments of the raw scene \<open>{}\<close>.\<close>

lemma empty_scene_lines:
  "sceneLine empty_scene 0 = lit_scene @ S ''1 ('' @ lit_duration @ S ''0s - 5s)''"
  "sceneLine empty_scene (Suc 0) = lit_scene @ S ''2 ('' @ lit_duration @ S ''0s - 5s)''"
  "envLine empty_scene = []" "charLine empty_scene = []" "cameraLine empty_scene = []"
  "styleLine empty_scene = []" "dialogueLine empty_scene = lit_no_dialogue"
  "continuityLine empty_scene i = []"
  "continuityLine_service empty_scene 0 = []"
  "continuityLine_service empty_scene (Suc 0) = S ''Continuity: [Missing]''"
  by (simp_all add: sceneLine_def timeLine_def sceneNumberOf_def empty_scene_def chain_def showInt_def
        showNat.simps envLine_def charLine_def cameraLine_def styleLine_def dialogueLine_def
        continuityLine_def continuityLine_service_def cleanAttribute_def)

text \<open>
  C8, as the code has it. For every raw scene item at position \<open>index\<close>, the
  \<open>script_description\<close> is the pipe-joined concatenation, in this order, of the scene and
  time-window segment, which is never empty; the non-empty ones among continuity note,
  environment, characters, camera and visual style; and the dialogue segment, which is
  never empty: for an empty or none-word dialogue line it is the placeholder
  "Thoai: Khong co". In src/App.tsx the continuity segment is empty exactly when the cleaned
  continuity reference is; in src/services/geminiService.ts it is empty only for the first
  item, later items getting the placeholder "Continuity: [Missing]".
\<close>

theorem description_segments_in_order:
  assumes "index < length rawScenes" and "item = rawScenes ! index"
  shows
    "script_description (mapJsonToScenes rawScenes ! index) =
       join (S '' | '')
         (sceneLine item index
          # filterBoolean [continuityLine item index, envLine item, charLine item,
                           cameraLine item, styleLine item]
          @ [dialogueLine item])
     \<and> script_description (mapJsonToScenes_service rawScenes ! index) =
       join (S '' | '')
         (sceneLine item index
          # filterBoolean [continuityLine_service item index, envLine item, charLine item,
                           cameraLine item, styleLine item]
          @ [dialogueLine item])
     \<and> sceneLine item index \<noteq> []
     \<and> dialogueLine item \<noteq> []
     \<and> (cleanAttribute (chain (dialogue item) line) = [] \<longrightarrow> dialogueLine item = lit_no_dialogue)
     \<and> (continuityLine item index = []) = (cleanAttribute (continuity_reference item) = [])
     \<and> (continuityLine_service item index = []) =
         (cleanAttribute (continuity_reference item) = [] \<and> index = 0)"
proof -
  have a: "mapJsonToScenes rawScenes ! index = sceneOf item index"
    using assms by (simp add: mapJsonToScenes_def mapIndexed_def mapFrom_nth)
  have s: "mapJsonToScenes_service rawScenes ! index = sceneOf_service item index"
    using assms by (simp add: mapJsonToScenes_service_def mapIndexed_def mapFrom_nth)
  have "script_description (sceneOf item index) =
       join (S '' | '')
         (sceneLine item index
          # filterBoolean [continuityLine item index, envLine item, charLine item,
                           cameraLine item, styleLine item]
          @ [dialogueLine item])"
    by (simp add: sceneOf_def description_segments)
  moreover have "script_description (sceneOf_service item index) =
       join (S '' | '')
         (sceneLine item index
          # filterBoolean [continuityLine_service item index, envLine item, charLine item,
                           cameraLine item, styleLine item]
          @ [dialogueLine item])"
    by (simp add: sceneOf_service_def description_segments)
  moreover have "cleanAttribute (chain (dialogue item) line) = [] \<longrightarrow> dialogueLine item = lit_no_dialogue"
    by (simp add: dialogueLine_def Let_def)
  moreover have "(continuityLine item index = []) = (cleanAttribute (continuity_reference item) = [])"
    by (simp add: continuityLine_def Let_def)
  moreover have "(continuityLine_service item index = []) =
         (cleanAttribute (continuity_reference item) = [] \<and> index = 0)"
    by (simp add: continuityLine_service_def Let_def)
  ultimately show ?thesis
    using a s sceneLine_nonempty [of item index] dialogueLine_nonempty [of item] by simp
qed

text \<open>The second of two raw scenes \<open>{}\<close>, in both copies.\<close>

theorem description_segments_in_order_witness:
  "script_description (mapJsonToScenes [empty_scene, empty_scene] ! 1) =
     lit_scene @ S ''2 ('' @ lit_duration @ S ''0s - 5s) | '' @ lit_no_dialogue
   \<and> script_description (mapJsonToScenes_service [empty_scene, empty_scene] ! 1) =
     lit_scene @ S ''2 ('' @ lit_duration @ S ''0s - 5s) | Continuity: [Missing] | ''
       @ lit_no_dialogue"
  using description_segments_in_order [of 1 "[empty_scene, empty_scene]" empty_scene]
  by (simp add: empty_scene_lines filterBoolean_def)

text \<open>
  C8 as the specification words it fails: the raw scene \<open>{}\<close> has no dialogue, yet its
  description carries a dialogue segment, in both copies.
\<close>

theorem description_placeholder_counterexample:
  "cleanAttribute (chain (dialogue empty_scene) line) = []
   \<and> script_description (hd (mapJsonToScenes [empty_scene])) =
       lit_scene @ S ''1 ('' @ lit_duration @ S ''0s - 5s) | '' @ lit_no_dialogue
   \<and> script_description (hd (mapJsonToScenes_service [empty_scene])) =
       lit_scene @ S ''1 ('' @ lit_duration @ S ''0s - 5s) | '' @ lit_no_dialogue
   \<and> spec_description empty_scene 0 = lit_scene @ S ''1 ('' @ lit_duration @ S ''0s - 5s)''
   \<and> script_description (hd (mapJsonToScenes [empty_scene])) \<noteq> spec_description empty_scene 0
   \<and> script_description (hd (mapJsonToScenes_service [empty_scene])) \<noteq> spec_description empty_scene 0"
proof -
  have c: "cleanAttribute (chain (dialogue empty_scene) line) = []"
    "cleanAttribute (continuity_reference empty_scene) = []"
    by (simp_all add: empty_scene_def chain_def cleanAttribute_def)
  have a: "script_description (hd (mapJsonToScenes [empty_scene])) =
       lit_scene @ S ''1 ('' @ lit_duration @ S ''0s - 5s) | '' @ lit_no_dialogue"
    by (simp add: mapJsonToScenes_def mapIndexed_def sceneOf_def empty_scene_lines filterBoolean_def
          lit_scene_def lit_no_dialogue_def)
  have s: "script_description (hd (mapJsonToScenes_service [empty_scene])) =
       lit_scene @ S ''1 ('' @ lit_duration @ S ''0s - 5s) | '' @ lit_no_dialogue"
    by (simp add: mapJsonToScenes_service_def mapIndexed_def sceneOf_service_def empty_scene_lines
          filterBoolean_def lit_scene_def lit_no_dialogue_def)
  have p: "spec_description empty_scene 0 = lit_scene @ S ''1 ('' @ lit_duration @ S ''0s - 5s)''"
    using c by (simp add: spec_description_def empty_scene_lines filterBoolean_def lit_scene_def)
  show ?thesis unfolding a s p using c(1) by (simp add: lit_no_dialogue_def)
qed

text \<open>
  C9, as the code has it. The copy of \<open>mapJsonToScenes\<close> in src/services/geminiService.ts
  and the copy in src/App.tsx give the same list of scenes if and only if every raw scene
  after the first has a non-empty cleaned continuity reference; on every input they give
  the same scene numbers, the same \<open>veo_prompt\<close> and the same \<open>wishk_prompt\<close>.
\<close>

theorem mapJsonToScenes_copies_agree:
  "(mapJsonToScenes_service rawScenes = mapJsonToScenes rawScenes) =
     list_all (\<lambda>item. cleanAttribute (continuity_reference item) \<noteq> []) (tl rawScenes)
   \<and> map scene_number (mapJsonToScenes_service rawScenes) = map scene_number (mapJsonToScenes rawScenes)
   \<and> map veo_prompt (mapJsonToScenes_service rawScenes) = map veo_prompt (mapJsonToScenes rawScenes)
   \<and> map wishk_prompt (mapJsonToScenes_service rawScenes) = map wishk_prompt (mapJsonToScenes rawScenes)"
  using mapJsonToScenes_agree_iff [of rawScenes] mapFrom_fields_agree [of 0 rawScenes]
  by (simp add: mapJsonToScenes_service_def mapJsonToScenes_def mapIndexed_def)

text \<open>Two raw scenes, the second with a continuity reference: the copies agree.\<close>

theorem mapJsonToScenes_copies_agree_witness:
  "mapJsonToScenes_service [empty_scene, empty_scene\<lparr>continuity_reference := Some (S ''as before'')\<rparr>]
     = mapJsonToScenes [empty_scene, empty_scene\<lparr>continuity_reference := Some (S ''as before'')\<rparr>]"
  using mapJsonToScenes_copies_agree
          [of "[empty_scene, empty_scene\<lparr>continuity_reference := Some (S ''as before'')\<rparr>]"]
  by (simp add: cleanAttribute_def trim_def is_space_def toLowerCase_def none_words_def
        stripPunct_def isPunctOrSpace_def)

text \<open>
  C9 as stated fails: on two raw scenes \<open>{}\<close> the copies differ in the description of the
  second scene.
\<close>

theorem mapJsonToScenes_copies_differ_counterexample:
  "mapJsonToScenes_service [empty_scene, empty_scene] \<noteq> mapJsonToScenes [empty_scene, empty_scene]
   \<and> script_description (mapJsonToScenes_service [empty_scene, empty_scene] ! 1) =
       lit_scene @ S ''2 ('' @ lit_duration @ S ''0s - 5s) | Continuity: [Missing] | ''
         @ lit_no_dialogue
   \<and> script_description (mapJsonToScenes [empty_scene, empty_scene] ! 1) =
       lit_scene @ S ''2 ('' @ lit_duration @ S ''0s - 5s) | '' @ lit_no_dialogue"
proof -
  have s: "script_description (mapJsonToScenes_service [empty_scene, empty_scene] ! 1) =
       lit_scene @ S ''2 ('' @ lit_duration @ S ''0s - 5s) | Continuity: [Missing] | ''
         @ lit_no_dialogue"
    by (simp add: mapJsonToScenes_service_def mapIndexed_def sceneOf_service_def empty_scene_lines
          filterBoolean_def lit_scene_def lit_no_dialogue_def)
  have a: "script_description (mapJsonToScenes [empty_scene, empty_scene] ! 1) =
       lit_scene @ S ''2 ('' @ lit_duration @ S ''0s - 5s) | '' @ lit_no_dialogue"
    by (simp add: mapJsonToScenes_def mapIndexed_def sceneOf_def empty_scene_lines
          filterBoolean_def lit_scene_def lit_no_dialogue_def)
  have "script_description (mapJsonToScenes_service [empty_scene, empty_scene] ! 1) \<noteq>
        script_description (mapJsonToScenes [empty_scene, empty_scene] ! 1)"
    unfolding s a by (simp add: lit_no_dialogue_def)
  then have "mapJsonToScenes_service [empty_scene, empty_scene] \<noteq> mapJsonToScenes [empty_scene, empty_scene]"
    by auto
  with s a show ?thesis by simp
qed

section \<open>Renumbering\<close>

lemma mapFrom_renumber:
  "map scene_number (mapFrom k (\<lambda>s i. s\<lparr>scene_number := startNum + int i\<rparr>) xs) =
     map (\<lambda>i. startNum + int i) [k..<k + length xs]"
proof (induction xs arbitrary: k)
  case Nil
  then show ?case by simp
next
  case (Cons x xs)
  have "[k..<k + length (x # xs)] = k # [Suc k..<k + length (x # xs)]"
    by (rule upt_conv_Cons) simp
  then show ?case using Cons.IH [of "Suc k"] by (simp del: upt_Suc)
qed

lemma renumber_numbers:
  "map scene_number (renumber startNum mapped) = map (\<lambda>i. startNum + int i) [0..<length mapped]"
  using mapFrom_renumber [of 0 startNum mapped] by (simp add: renumber_def mapIndexed_def)

lemma length_renumber: "length (renumber startNum mapped) = length mapped"
  by (simp add: renumber_def mapIndexed_def length_mapFrom)

lemma length_mapJsonToScenes:
  "length (mapJsonToScenes raw) = length raw" "length (mapJsonToScenes_service raw) = length raw"
  by (simp_all add: mapJsonToScenes_def mapJsonToScenes_service_def mapIndexed_def length_mapFrom)

lemma batches_left: "(b < nat (- ((- n) div 10))) = (int b * 10 < n)"
  unfolding zless_nat_eq_int_zless by presburger

lemma batchRequests_append: "batchRequests (xs @ ys) = batchRequests xs @ batchRequests ys"
  by (induction xs rule: batchRequests.induct) simp_all

lemma requested_batchRequest: "requested (batchRequest options si cnt pc ss) = cnt"
  by (simp add: batchRequest_def)

lemma mapFrom_correct:
  "map scene (mapFrom k (\<lambda>s idx. s\<lparr>scene := Some (startIndex + int idx)\<rparr>) scs) =
     map (\<lambda>i. Some (startIndex + int i)) [k..<k + length scs]"
proof (induction scs arbitrary: k)
  case Nil
  then show ?case by simp
next
  case (Cons x xs)
  have "[k..<k + length (x # xs)] = k # [Suc k..<k + length (x # xs)]"
    by (rule upt_conv_Cons) simp
  then show ?case using Cons.IH [of "Suc k"] by (simp del: upt_Suc)
qed

lemma correctScenes_numbers:
  "map scene (correctScenes startIndex scs) =
     map (\<lambda>i. Some (startIndex + int i)) [0..<length scs]"
  using mapFrom_correct [of 0 startIndex scs] by (simp add: correctScenes_def mapIndexed_def)

lemma length_correctScenes: "length (correctScenes startIndex scs) = length scs"
  by (simp add: correctScenes_def mapIndexed_def length_mapFrom)

lemma numbered_append:
  "map (\<lambda>i. Some (1 + int i)) [0..<a] @ map (\<lambda>i. Some (int a + 1 + int i)) [0..<b] =
     map (\<lambda>i. Some (1 + int i)) [0..<a + b]"
proof -
  have "[0..<a + b] = [0..<a] @ [a..<a + b]"
    by (rule upt_add_eq_append) simp
  moreover have "[a..<a + b] = map (\<lambda>i. i + a) [0..<b]"
    using map_add_upt [of a b] by (simp only: add.commute)
  ultimately have "[0..<a + b] = [0..<a] @ map (\<lambda>i. i + a) [0..<b]"
    by (simp only:)
  then show ?thesis by (simp add: comp_def ac_simps)
qed

section \<open>A generation call with a service that answers in full\<close>

lemma generateBatchWithRetry_full:
  assumes "answers_in_full ai"
  shows "\<exists>scs sm. generateBatchWithRetry ai options si cnt pc ss w =
           (Inr (Batch scs sm),
            w\<lparr>calls := calls w + 1,
              events := events w @ [Requested (batchRequest options si cnt pc ss)]\<rparr>)
         \<and> length scs = nat cnt"
proof -
  let ?req = "batchRequest options si cnt pc ss"
  from assms have c: "case ai (calls w) ?req of
                     Json (Some scs) sm \<Rightarrow> length scs = nat (requested ?req) | _ \<Rightarrow> False"
    unfolding answers_in_full_def by blast
  obtain scs sm where a: "ai (calls w) ?req = Json (Some scs) sm" and l: "length scs = nat cnt"
  proof (cases "ai (calls w) ?req")
    case (Threw e)
    with c show ?thesis by simp
  next
    case NoText
    with c show ?thesis by simp
  next
    case (Json o1 o2)
    with c that show ?thesis by (cases o1) (simp_all add: requested_batchRequest)
  qed
  have "generateBatchWithRetry ai options si cnt pc ss w =
          (Inr (Batch scs (case sm of None \<Rightarrow> [] | Some t \<Rightarrow> t)),
           w\<lparr>calls := calls w + 1, events := events w @ [Requested ?req]\<rparr>)"
    unfolding generateBatchWithRetry_def
    by (subst retryLoop.simps) (simp add: generateBatch_def ask_def a MAX_RETRIES_def)
  with l show ?thesis by blast
qed

lemma batchRequests_Cons_batchRequest:
  "batchRequests (Requested (batchRequest options si cnt pc ss) # es) = (si, cnt) # batchRequests es"
  by (simp add: batchRequest_def)

lemma batchLoop_done:
  "\<not> batch < totalBatches \<Longrightarrow>
     batchLoop ai options n totalBatches batch allRaw ss pc w = (Inr (allRaw, ss), w)"
  by (subst batchLoop.simps) simp

lemma batchLoop_step:
  assumes "batch < totalBatches"
    and "generateBatchWithRetry ai options (int batch * BATCH_SIZE + 1)
           (min BATCH_SIZE (n - int (length allRaw))) pc ss
           (emit [Progress (ProcessingPart (batch + 1) totalBatches (int batch * BATCH_SIZE + 1)
                    (int batch * BATCH_SIZE + 1 + min BATCH_SIZE (n - int (length allRaw)) - 1))] w)
         = (Inr (Batch scs sm), w1)"
    and "scs \<noteq> []"
  shows "batchLoop ai options n totalBatches batch allRaw ss pc w =
           batchLoop ai options n totalBatches (batch + 1)
             (allRaw @ correctScenes (int batch * BATCH_SIZE + 1) scs)
             (if batch = 0 then sm else ss)
             (contextOf (last (correctScenes (int batch * BATCH_SIZE + 1) scs)))
             (if batch + 1 < totalBatches then emit [Progress Resting, Delayed 6000] w1 else w1)"
  using assms by (subst batchLoop.simps) (simp add: Let_def)

lemma batchLoop_full:
  assumes full: "answers_in_full ai" and n: "0 < n" and T: "T = nat (- ((- n) div 10))"
  shows "batch \<le> T \<Longrightarrow> int (length allRaw) = min n (int batch * 10) \<Longrightarrow>
         map scene allRaw = map (\<lambda>i. Some (1 + int i)) [0..<length allRaw] \<Longrightarrow>
         \<exists>all' ss' w'.
           batchLoop ai options n T batch allRaw ss pc w = (Inr (all', ss'), w')
           \<and> map scene all' = map (\<lambda>i. Some (1 + int i)) [0..<nat n]
           \<and> batchRequests (events w') =
               batchRequests (events w)
               @ map (\<lambda>b. (int b * 10 + 1, min 10 (n - int b * 10))) [batch..<T]"
proof (induction "T - batch" arbitrary: batch allRaw ss pc w)
  case 0
  then have e: "batch = T" by simp
  have "\<not> T < nat (- ((- n) div 10))" using T by simp
  then have "n \<le> int T * 10" unfolding batches_left by simp
  with 0 e have "length allRaw = nat n" by simp
  with 0 e show ?case by (simp add: batchLoop_done)
next
  case (Suc d)
  then have lt: "batch < T" by simp
  then have small: "int batch * 10 < n" using T batches_left by simp
  with Suc.prems have len: "int (length allRaw) = int batch * 10" by simp
  define si where "si = int batch * BATCH_SIZE + 1"
  define cnt where "cnt = min BATCH_SIZE (n - int (length allRaw))"
  define w0 where "w0 = emit [Progress (ProcessingPart (batch + 1) T si (si + cnt - 1))] w"
  obtain scs sm where g: "generateBatchWithRetry ai options si cnt pc ss w0 =
           (Inr (Batch scs sm),
            w0\<lparr>calls := calls w0 + 1,
               events := events w0 @ [Requested (batchRequest options si cnt pc ss)]\<rparr>)"
    and l0: "length scs = nat cnt"
    using generateBatchWithRetry_full [OF full] by blast
  have cnt: "cnt = min 10 (n - int batch * 10)" and pos: "0 < cnt"
    using small len by (simp_all add: cnt_def BATCH_SIZE_def)
  with l0 have l: "int (length scs) = cnt" by simp
  with pos have ne: "scs \<noteq> []" by auto
  define w1 where "w1 = w0\<lparr>calls := calls w0 + 1,
               events := events w0 @ [Requested (batchRequest options si cnt pc ss)]\<rparr>"
  define w2 where "w2 = (if batch + 1 < T then emit [Progress Resting, Delayed 6000] w1 else w1)"
  define all1 where "all1 = allRaw @ correctScenes si scs"
  have step: "batchLoop ai options n T batch allRaw ss pc w =
                batchLoop ai options n T (batch + 1) all1 (if batch = 0 then sm else ss)
                  (contextOf (last (correctScenes si scs))) w2"
    unfolding all1_def w2_def si_def
    by (rule batchLoop_step [OF lt _ ne]) (use g in \<open>simp add: si_def cnt_def w0_def w1_def\<close>)
  have ev: "batchRequests (events w2) = batchRequests (events w) @ [(si, cnt)]"
    by (simp add: w2_def w1_def w0_def emit_def batchRequests_append batchRequests_Cons_batchRequest)
  have len1: "int (length all1) = min n (int (batch + 1) * 10)"
    using len l cnt by (simp add: all1_def length_correctScenes)
  have si1: "si = int (length allRaw) + 1"
    using len by (simp add: si_def BATCH_SIZE_def)
  have num1: "map scene all1 = map (\<lambda>i. Some (1 + int i)) [0..<length all1]"
    using Suc.prems(3) numbered_append [of "length allRaw" "length scs"]
    by (simp add: all1_def correctScenes_numbers length_correctScenes si1)
  have d: "d = T - (batch + 1)" using Suc.hyps(2) by simp
  have le: "batch + 1 \<le> T" using lt by simp
  from Suc.hyps(1) [OF d le len1 num1, of "if batch = 0 then sm else ss"
      "contextOf (last (correctScenes si scs))" w2]
  obtain all' ss' w' where r: "batchLoop ai options n T (batch + 1) all1 (if batch = 0 then sm else ss)
                  (contextOf (last (correctScenes si scs))) w2 = (Inr (all', ss'), w')"
    and r1: "map scene all' = map (\<lambda>i. Some (1 + int i)) [0..<nat n]"
    and r2: "batchRequests (events w') =
               batchRequests (events w2)
               @ map (\<lambda>b. (int b * 10 + 1, min 10 (n - int b * 10))) [batch + 1..<T]"
    by blast
  have "[batch..<T] = batch # [batch + 1..<T]" using lt by (simp add: upt_conv_Cons)
  then have "batchRequests (events w') =
               batchRequests (events w)
               @ map (\<lambda>b. (int b * 10 + 1, min 10 (n - int b * 10))) [batch..<T]"
    using r2 ev cnt by (simp add: si_def BATCH_SIZE_def)
  with step r r1 show ?case by simp
qed

section \<open>Extending a script\<close>

text \<open>
  C7, as the code has it. When the service answers the request of \<open>extendScript\<close> with a
  list of scenes, \<open>extendScript\<close> returns as many scenes as the service sent, numbered
  consecutively from \<open>lastScene.scene_number + 1\<close> whatever numbers the service reported;
  so after scene 23 and with 5 scenes sent, the numbers are 24 to 28. Both copies do so.
\<close>

theorem extendScript_renumbers:
  assumes "apiKey \<noteq> []"
    and "ai (calls w) (ExtendPrompt (scene_number lastScene) (script_description lastScene)
                         extensionIdea count (videoStyle originalOptions)) = Json (Some l) sm"
    and "ai (calls w) (ExtendPrompt_service (scene_number lastScene) (script_description lastScene)
                         extensionIdea count (videoStyle originalOptions)) = Json (Some l') sm'"
  shows
    "fst (extendScript ai lastScene extensionIdea count originalOptions apiKey w) =
       Inr (renumber (scene_number lastScene + 1) (mapJsonToScenes l))
     \<and> map scene_number (renumber (scene_number lastScene + 1) (mapJsonToScenes l)) =
         map (\<lambda>i. scene_number lastScene + 1 + int i) [0..<length l]
     \<and> fst (extendScript_service ai lastScene extensionIdea count originalOptions apiKey w) =
       Inr (renumber (scene_number lastScene + 1) (mapJsonToScenes_service l'))
     \<and> map scene_number (renumber (scene_number lastScene + 1) (mapJsonToScenes_service l')) =
         map (\<lambda>i. scene_number lastScene + 1 + int i) [0..<length l']"
  using assms
  by (simp add: extendScript_def extendScript_service_def ask_def Let_def renumber_numbers
        length_mapJsonToScenes)

lemma upt_23: "[0..<23] = [0,1,2,3,4,5,6,7,8,9,10,11,12,13,14,15,16,17,18,19,20,21,22]"
  by (simp add: upt_conv_Cons)

text \<open>After scene 23, a service that sends the 5 scenes asked for, each reporting the
  number 99: the new scenes are numbered 24 to 28.\<close>

theorem extendScript_renumbers_witness:
  "fst (extendScript obliging scene23 (S ''a storm'') 5 sample_options (S ''AIzaSyExample'') start) =
     Inr (renumber 24 (mapJsonToScenes (replicate 5 misnumbered)))
   \<and> map scene_number (renumber 24 (mapJsonToScenes (replicate 5 misnumbered))) = [24, 25, 26, 27, 28]
   \<and> fst (extendScript_service obliging scene23 (S ''a storm'') 5 sample_options (S ''AIzaSyExample'') start) =
     Inr (renumber 24 (mapJsonToScenes_service (replicate 5 misnumbered)))
   \<and> map scene_number (renumber 24 (mapJsonToScenes_service (replicate 5 misnumbered))) = [24, 25, 26, 27, 28]"
proof -
  have five: "replicate (nat 5) misnumbered = replicate 5 misnumbered"
    by simp
  have up: "[0..<5] = [0, 1, 2, 3, 4]" by (simp add: upt_conv_Cons)
  show ?thesis
    using extendScript_renumbers [of "S ''AIzaSyExample''" obliging start scene23 "S ''a storm''" 5
        sample_options "replicate 5 misnumbered" "Some (S ''A story'')"
        "replicate 5 misnumbered" "Some (S ''A story'')"]
    by (simp add: obliging_def scene23_def up)
qed

text \<open>
  C7 as stated fails: after scene 23 and asked for 5 scenes, a service that sends two
  scenes makes \<open>extendScript\<close> return two scenes, numbered 24 and 25.
\<close>

theorem extendScript_short_answer_counterexample:
  "fst (extendScript terse scene23 (S ''a storm'') 5 sample_options (S ''AIzaSyExample'') start) =
     Inr (renumber 24 (mapJsonToScenes [misnumbered, misnumbered]))
   \<and> map scene_number (renumber 24 (mapJsonToScenes [misnumbered, misnumbered])) = [24, 25]
   \<and> length (renumber 24 (mapJsonToScenes [misnumbered, misnumbered])) \<noteq> 5
   \<and> fst (extendScript_service terse scene23 (S ''a storm'') 5 sample_options (S ''AIzaSyExample'') start) =
     Inr (renumber 24 (mapJsonToScenes_service [misnumbered, misnumbered]))
   \<and> map scene_number (renumber 24 (mapJsonToScenes_service [misnumbered, misnumbered])) = [24, 25]"
  by (simp add: extendScript_def extendScript_service_def ask_def terse_def scene23_def start_def
        renumber_numbers length_renumber length_mapJsonToScenes)

section \<open>The batched generation\<close>

lemma scene_number_sceneOf: "scene_number (sceneOf item index) = sceneNumberOf item index"
  by (simp add: sceneOf_def)

lemma mapFrom_sceneOf_numbered:
  "\<forall>x \<in> set xs. \<exists>m. scene x = Some m \<and> m \<noteq> 0 \<Longrightarrow>
     map scene_number (mapFrom k sceneOf xs) = map (\<lambda>x. the (scene x)) xs"
  by (induction xs arbitrary: k) (auto simp: scene_number_sceneOf sceneNumberOf_def)

lemma mapJsonToScenes_numbered:
  assumes "map scene xs = map (\<lambda>i. Some (1 + int i)) [0..<n]"
  shows "map scene_number (mapJsonToScenes xs) = map (\<lambda>i. 1 + int i) [0..<n]"
proof -
  have "\<forall>x \<in> set xs. \<exists>m. scene x = Some m \<and> m \<noteq> 0"
  proof
    fix x assume "x \<in> set xs"
    then have "scene x \<in> set (map scene xs)" by simp
    with assms obtain i where "scene x = Some (1 + int i)" by auto
    then show "\<exists>m. scene x = Some m \<and> m \<noteq> 0" by simp
  qed
  then have "map scene_number (mapJsonToScenes xs) = map (\<lambda>x. the (scene x)) xs"
    by (simp add: mapJsonToScenes_def mapIndexed_def mapFrom_sceneOf_numbered)
  also have "\<dots> = map the (map scene xs)" by simp
  also have "\<dots> = map (\<lambda>i. 1 + int i) [0..<n]" unfolding assms by simp
  finally show ?thesis .
qed

lemma targetCountOf_positive: "0 < targetCountOf pc"
  by (simp add: targetCountOf_def Let_def split: prompt_count.splits option.splits)

lemma generateScript_in_full:
  assumes "apiKey \<noteq> []" and "answers_in_full ai" and "targetCountOf (promptCount options) = n"
  shows
    "case generateScript ai options apiKey w of
        (Inl err, w') \<Rightarrow> False
      | (Inr script, w') \<Rightarrow>
          map scene_number (scenes script) = map (\<lambda>i. 1 + int i) [0..<nat n]
          \<and> batchRequests (events w') =
              batchRequests (events w)
              @ map (\<lambda>b. (int b * 10 + 1, min 10 (n - int b * 10))) [0..<nat (- ((- n) div 10))]"
proof -
  have n: "0 < n" using assms(3) targetCountOf_positive [of "promptCount options"] by simp
  obtain all' ss' w' where
    r: "batchLoop ai options n (nat (- ((- n) div 10))) 0 [] [] [] w = (Inr (all', ss'), w')"
    and r1: "map scene all' = map (\<lambda>i. Some (1 + int i)) [0..<nat n]"
    and r2: "batchRequests (events w') =
               batchRequests (events w)
               @ map (\<lambda>b. (int b * 10 + 1, min 10 (n - int b * 10))) [0..<nat (- ((- n) div 10))]"
    using batchLoop_full [OF assms(2) n refl, of 0 "[]" options "[]" "[]" w] n by auto
  have "generateScript ai options apiKey w =
          (Inr \<lparr>story_summary = ss', scenes = mapJsonToScenes all'\<rparr>, w')"
    using assms(1,3) r by (simp add: generateScript_def BATCH_SIZE_def)
  then show ?thesis
    using r2 mapJsonToScenes_numbered [OF r1] by simp
qed

text \<open>
  C1, as the code has it. Let the service answer every request with exactly as many
  scenes as the request asks for, whatever scene numbers they report. Then
  \<open>generateScript\<close> for a target of \<open>n\<close> scenes returns a script whose scenes are numbered
  1 to \<open>n\<close>, and its batch requests are, for each batch \<open>b\<close> below \<open>ceil(n / 10)\<close>, one
  request that starts at scene \<open>10 b + 1\<close> and asks for \<open>min(10, n - 10 b)\<close> scenes; for
  \<open>n = 23\<close> three requests asking for 10, 10 and 3 scenes. In general the scenes of a batch
  are renumbered from \<open>startIndex\<close> on, as many as the service sent.
\<close>

theorem generateScript_batches:
  assumes "apiKey \<noteq> []" and "answers_in_full ai" and "targetCountOf (promptCount options) = n"
  shows
    "(case generateScript ai options apiKey w of
        (Inl err, w') \<Rightarrow> False
      | (Inr script, w') \<Rightarrow>
          map scene_number (scenes script) = map (\<lambda>i. 1 + int i) [0..<nat n]
          \<and> batchRequests (events w') =
              batchRequests (events w)
              @ map (\<lambda>b. (int b * 10 + 1, min 10 (n - int b * 10))) [0..<nat (- ((- n) div 10))])
     \<and> map scene (correctScenes startIndex scs) =
         map (\<lambda>i. Some (startIndex + int i)) [0..<length scs]"
  using generateScript_in_full [OF assms, of w] by (simp add: correctScenes_numbers)

lemma answers_in_full_obliging: "answers_in_full obliging"
  by (simp add: answers_in_full_def obliging_def)

text \<open>For 23 scenes and a service that sends what it is asked for, each scene reporting
  the number 99.\<close>

theorem generateScript_batches_witness:
  "(case generateScript obliging sample_options (S ''AIzaSyExample'') start of
        (Inl err, w') \<Rightarrow> False
      | (Inr script, w') \<Rightarrow>
          map scene_number (scenes script) =
            [1, 2, 3, 4, 5, 6, 7, 8, 9, 10, 11, 12, 13, 14, 15, 16, 17, 18, 19, 20, 21, 22, 23]
          \<and> batchRequests (events w') = [(1, 10), (11, 10), (21, 3)])
   \<and> map scene (correctScenes 21 [misnumbered, misnumbered, misnumbered]) = [Some 21, Some 22, Some 23]"
proof -
  have t: "targetCountOf (promptCount sample_options) = 23"
    by (simp add: targetCountOf_def sample_options_def)
  have k: "S ''AIzaSyExample'' \<noteq> []" by simp
  have u: "map (\<lambda>i. 1 + int i) [0..<nat 23] =
             [1, 2, 3, 4, 5, 6, 7, 8, 9, 10, 11, 12, 13, 14, 15, 16, 17, 18, 19, 20, 21, 22, 23]"
    by (simp add: upt_conv_Cons)
  have b: "map (\<lambda>b. (int b * 10 + 1, min 10 (23 - int b * 10))) [0..<nat (- ((- 23) div 10))] =
             [(1, 10), (11, 10), (21, 3)]"
    by (simp add: upt_conv_Cons)
  have e: "batchRequests (events start) = []" by (simp add: start_def)
  have c: "[0..<length [misnumbered, misnumbered, misnumbered]] = [0, 1, 2]"
    by (simp add: upt_conv_Cons)
  show ?thesis
    using generateScript_batches [OF k answers_in_full_obliging t, of start 21
        "[misnumbered, misnumbered, misnumbered]"]
    unfolding u b e c by (simp split: prod.splits sum.splits)
qed

section \<open>Rounding to a double\<close>

text \<open>A decimal literal of at most 15 digits, of which at most 12 before the point, keeps
  its ceiling when it is rounded to a double, and the product by 1000 and the sum with
  3000 are exact: there \<open>Math.ceil(parseFloat(_)) * 1000 + 3000\<close> is \<open>ceil(N) + 3\<close> seconds.\<close>

lemma bitLength_le: "n < 2 ^ p \<Longrightarrow> bitLength n \<le> p"
proof (induction p arbitrary: n)
  case 0
  then show ?case by (subst bitLength.simps) simp
next
  case (Suc p)
  then have "n div 2 < 2 ^ p" by simp
  then have "bitLength (n div 2) \<le> p" by (rule Suc.IH)
  then show ?case by (subst bitLength.simps) simp
qed

lemma bitLength_lower: "0 < n \<Longrightarrow> 2 ^ (bitLength n - 1) \<le> n"
proof (induction n rule: bitLength.induct)
  case (1 n)
  have b: "bitLength n = Suc (bitLength (n div 2))"
    using "1.prems" by (subst bitLength.simps) simp
  show ?case
  proof (cases "n div 2 = 0")
    case True
    then have "bitLength (n div 2) = 0" by (subst bitLength.simps) simp
    with b "1.prems" show ?thesis by simp
  next
    case False
    then have ih: "2 ^ (bitLength (n div 2) - 1) \<le> n div 2"
      using "1.IH" "1.prems" by simp
    have pos: "0 < bitLength (n div 2)"
      using False by (subst bitLength.simps) simp
    then have "(2::nat) ^ bitLength (n div 2) = 2 * 2 ^ (bitLength (n div 2) - 1)"
      by (cases "bitLength (n div 2)") simp_all
    also have "\<dots> \<le> 2 * (n div 2)" using ih by simp
    also have "\<dots> \<le> n" by simp
    finally show ?thesis using b by simp
  qed
qed

lemma roundHalfEven_bounds:
  assumes "0 < b"
  shows "2 * a \<le> 2 * (roundHalfEven a b * b) + b" and "2 * (roundHalfEven a b * b) \<le> 2 * a + b"
proof -
  define q r where "q = a div b" and "r = a mod b"
  have a: "a = q * b + r" and r: "r < b"
    using assms by (simp_all add: q_def r_def)
  define m where "m = roundHalfEven a b"
  have m: "m = (if 2 * r < b then q else if b < 2 * r then q + 1 else if even q then q else q + 1)"
    by (simp add: m_def roundHalfEven_def q_def r_def Let_def)
  have "2 * a \<le> 2 * (m * b) + b"
    unfolding a m using r by (auto simp: algebra_simps)
  then show "2 * a \<le> 2 * (roundHalfEven a b * b) + b" by (simp add: m_def)
  have "2 * (m * b) \<le> 2 * a + b"
    unfolding a m using r by (auto simp: algebra_simps)
  then show "2 * (roundHalfEven a b * b) \<le> 2 * a + b" by (simp add: m_def)
qed

lemma roundHalfEven_exact: "0 < b \<Longrightarrow> roundHalfEven (q * b) b = q"
  by (simp add: roundHalfEven_def)

lemma foldl_digits:
  "foldl (\<lambda>acc c. acc * 10 + digitVal c) acc ys =
     acc * 10 ^ length ys + foldl (\<lambda>acc c. acc * 10 + digitVal c) 0 ys"
proof (induction ys arbitrary: acc rule: rev_induct)
  case Nil
  then show ?case by simp
next
  case (snoc y ys)
  show ?case using snoc [of acc] by (simp add: algebra_simps)
qed

lemma digitsValue_append:
  "digitsValue 10 (xs @ ys) = digitsValue 10 xs * 10 ^ length ys + digitsValue 10 ys"
  unfolding digitsValue_def foldl_append by (rule foldl_digits)

lemma digitsValue_less:
  "list_all isDecimalDigit xs \<Longrightarrow> digitsValue 10 xs < 10 ^ length xs"
proof (induction xs rule: rev_induct)
  case Nil
  then show ?case by (simp add: digitsValue_def)
next
  case (snoc x xs)
  then have d: "digitVal x \<le> 9" and ih: "digitsValue 10 xs < 10 ^ length xs"
    by (auto simp: isDecimalDigit_def digitVal_def)
  have "digitsValue 10 (xs @ [x]) = digitsValue 10 xs * 10 + digitVal x"
    by (simp add: digitsValue_def)
  also have "\<dots> < (digitsValue 10 xs + 1) * 10" using d by simp
  also have "\<dots> \<le> 10 ^ length xs * 10" using ih by (intro mult_le_mono1) simp
  finally show ?case by simp
qed

lemma scaled_round_fraction:
  assumes F: "0 < F" "F < B" and BT: "B < T"
  shows "(roundHalfEven ((D * B + F) * T) B + T - 1) div T = D + 1"
proof -
  define m where "m = roundHalfEven ((D * B + F) * T) B"
  have B: "0 < B" using F by simp
  have lo: "2 * ((D * B + F) * T) \<le> 2 * (m * B) + B"
    and hi: "2 * (m * B) \<le> 2 * ((D * B + F) * T) + B"
    unfolding m_def by (rule roundHalfEven_bounds [OF B])+
  have FT: "T \<le> F * T" using F by simp
  have FT': "F * T + T \<le> B * T"
  proof -
    have "(F + 1) * T \<le> B * T" using F by (intro mult_le_mono1) simp
    then show ?thesis by (simp add: algebra_simps)
  qed
  have above: "D * T < m"
  proof (rule ccontr)
    assume "\<not> D * T < m"
    then have "m * B \<le> D * T * B" by (intro mult_le_mono1) simp
    with lo have "2 * ((D * B + F) * T) \<le> 2 * (D * T * B) + B" by linarith
    then have "2 * (F * T) \<le> B" by (simp add: algebra_simps)
    with FT BT show False by linarith
  qed
  have below: "m \<le> (D + 1) * T"
  proof (rule ccontr)
    assume "\<not> m \<le> (D + 1) * T"
    then have "((D + 1) * T + 1) * B \<le> m * B" by (intro mult_le_mono1) simp
    with hi have "2 * (((D + 1) * T + 1) * B) \<le> 2 * ((D * B + F) * T) + B" by linarith
    then have "2 * (B * T) + 2 * B \<le> 2 * (F * T) + B" by (simp add: algebra_simps)
    with FT' B show False by linarith
  qed
  have e1: "T * (D + 1) = D * T + T" and e2: "T * Suc (D + 1) = (D + 1) * T + T"
    by (simp_all add: algebra_simps)
  have T: "0 < T" using BT by simp
  have "(m + T - 1) div T = D + 1"
  proof (rule div_nat_eqI)
    show "T * (D + 1) \<le> m + T - 1" unfolding e1 using above by linarith
    show "m + T - 1 < T * Suc (D + 1)" unfolding e2 using below T by linarith
  qed
  then show ?thesis by (simp add: m_def)
qed

lemma scaled_round_whole:
  assumes "0 < B" and "0 < T"
  shows "(roundHalfEven (D * B * T) B + T - 1) div T = D"
proof -
  have e: "D * B * T = (D * T) * B" by (simp add: algebra_simps)
  have "roundHalfEven (D * B * T) B = D * T"
    unfolding e by (rule roundHalfEven_exact [OF assms(1)])
  moreover have "(D * T + T - 1) div T = D"
  proof (rule div_nat_eqI)
    have e1: "T * D = D * T" and e2: "T * Suc D = D * T + T" by (simp_all add: algebra_simps)
    show "T * D \<le> D * T + T - 1" unfolding e1 using assms(2) by linarith
    show "D * T + T - 1 < T * Suc D" unfolding e2 using assms(2) by linarith
  qed
  ultimately show ?thesis by simp
qed

lemma ceiling_decimalValue:
  assumes "list_all isDecimalDigit fs"
  shows "nat \<lceil>decimalValue ds fs\<rceil> =
           digitsValue 10 ds + (if digitsValue 10 fs = 0 then 0 else 1)"
proof (cases "digitsValue 10 fs = 0")
  case True
  then show ?thesis by (simp add: decimalValue_def)
next
  case False
  define D F where "D = digitsValue 10 ds" and "F = digitsValue 10 fs"
  have F: "0 < F" "F < 10 ^ length fs"
    using False digitsValue_less [OF assms] by (simp_all add: F_def)
  let ?x = "(of_nat F :: rat) / 10 ^ length fs"
  have "0 < ?x" using F by simp
  moreover have "?x \<le> 1" using F
    by (simp add: divide_le_eq_1)
  ultimately have "\<lceil>of_nat D + ?x\<rceil> = int D + 1"
    by (intro ceiling_unique) simp_all
  then show ?thesis using False by (simp add: decimalValue_def D_def F_def)
qed

lemma ceilParseFloat_exact:
  assumes dd: "list_all isDecimalDigit ds" and df: "list_all isDecimalDigit fs"
    and l1: "length ds \<le> 12" and l2: "length ds + length fs \<le> 15"
  shows "ceilParseFloat ds fs = Some (nat \<lceil>decimalValue ds fs\<rceil>)"
proof -
  define D F B where "D = digitsValue 10 ds" and "F = digitsValue 10 fs" and "B = (10::nat) ^ length fs"
  have v: "digitsValue 10 (ds @ fs) = D * B + F"
    by (simp add: digitsValue_append D_def F_def B_def)
  have FB: "F < B" using digitsValue_less [OF df] by (simp add: F_def B_def)
  have B0: "0 < B" by (simp add: B_def)
  have Dlt: "D < 10 ^ length ds" using digitsValue_less [OF dd] by (simp add: D_def)
  have whole: "(D * B + F) div B = D" using FB by simp
  have c: "nat \<lceil>decimalValue ds fs\<rceil> = D + (if F = 0 then 0 else 1)"
    using ceiling_decimalValue [OF df] by (simp add: D_def F_def)
  have pw: "(10::nat) ^ length ds * 10 ^ length fs \<le> 10 ^ 15"
  proof -
    have "(10::nat) ^ (length ds + length fs) \<le> 10 ^ 15"
      using l2 by (intro power_increasing) simp_all
    then show ?thesis unfolding power_add .
  qed
  have Ble: "B \<le> 10 ^ 15"
  proof -
    have "length fs \<le> 15" using l2 by simp
    then show ?thesis unfolding B_def by (intro power_increasing) simp_all
  qed
  have cpf0: "D = 0 \<Longrightarrow> ceilParseFloat ds fs = Some (if F * 2 ^ 1075 \<le> B then 0 else 1)"
    unfolding ceilParseFloat_def Let_def v B_def [symmetric] whole by simp
  have cpf1: "D \<noteq> 0 \<Longrightarrow> bitLength D \<le> 53 \<Longrightarrow>
      ceilParseFloat ds fs =
        Some ((roundHalfEven ((D * B + F) * 2 ^ (53 - bitLength D)) B + 2 ^ (53 - bitLength D) - 1)
                div 2 ^ (53 - bitLength D))"
    unfolding ceilParseFloat_def Let_def v B_def [symmetric] whole by simp
  show ?thesis
  proof (cases "D = 0")
    case True
    have big: "(10::nat) ^ 15 < 2 ^ 1075" by simp
    have "F * 2 ^ 1075 \<le> B \<longleftrightarrow> F = 0"
    proof
      assume a: "F * 2 ^ 1075 \<le> B"
      show "F = 0"
      proof (rule ccontr)
        assume "F \<noteq> 0"
        then have "(2::nat) ^ 1075 \<le> F * 2 ^ 1075" by simp
        with a Ble big show False by linarith
      qed
    qed simp
    then show ?thesis
      using True c by (simp add: cpf0 [OF True])
  next
    case False
    define L where "L = bitLength D"
    have D12: "D < 10 ^ 12"
    proof -
      have "(10::nat) ^ length ds \<le> 10 ^ 12" using l1 by (intro power_increasing) simp_all
      with Dlt show ?thesis by linarith
    qed
    have "D < 2 ^ 40" using D12 by simp
    then have L40: "L \<le> 40" unfolding L_def by (rule bitLength_le)
    have Llow: "2 ^ (L - 1) \<le> D" unfolding L_def using False by (intro bitLength_lower) simp
    define T where "T = (2::nat) ^ (53 - L)"
    have T0: "0 < T" by (simp add: T_def)
    have res: "(roundHalfEven ((D * B + F) * T) B + T - 1) div T = D + (if F = 0 then 0 else 1)"
    proof (cases "F = 0")
      case True
      then show ?thesis using scaled_round_whole [OF B0 T0, of D] by simp
    next
      case F: False
      have "D * B < 10 ^ length ds * 10 ^ length fs"
        unfolding B_def using Dlt by simp
      with pw have DB: "D * B < 10 ^ 15" by linarith
      have "(10::nat) ^ 15 < 2 ^ 50" by simp
      with DB have DB50: "D * B < 2 ^ 50" by linarith
      have "2 ^ (L - 1) * B \<le> D * B" using Llow by (intro mult_le_mono1)
      with DB50 have lt: "2 ^ (L - 1) * B < 2 ^ 50" by linarith
      have L1: "1 \<le> L"
      proof (rule ccontr)
        assume "\<not> 1 \<le> L"
        then have "bitLength D = 0" by (simp add: L_def)
        then show False using False by (subst (asm) bitLength.simps) simp
      qed
      have e: "(L - 1) + (51 - L) = 50" using L40 L1 by simp
      have "(2::nat) ^ ((L - 1) + (51 - L)) = 2 ^ (L - 1) * 2 ^ (51 - L)" by (rule power_add)
      then have split: "(2::nat) ^ 50 = 2 ^ (L - 1) * 2 ^ (51 - L)" unfolding e .
      have "B < 2 ^ (51 - L)"
      proof (rule ccontr)
        assume "\<not> B < 2 ^ (51 - L)"
        then have "2 ^ (L - 1) * 2 ^ (51 - L) \<le> 2 ^ (L - 1) * B" by (intro mult_le_mono2) simp
        with lt split show False by linarith
      qed
      moreover have "(2::nat) ^ (51 - L) \<le> 2 ^ (53 - L)" by (intro power_increasing) simp_all
      ultimately have BT: "B < T" unfolding T_def by linarith
      have F0: "0 < F" using F by simp
      show ?thesis using scaled_round_fraction [OF F0 FB BT, of D] F by simp
    qed
    have L53: "bitLength D \<le> 53" using L40 by (simp add: L_def)
    have "ceilParseFloat ds fs = Some (D + (if F = 0 then 0 else 1))"
      unfolding cpf1 [OF False L53] res [unfolded T_def L_def] by (rule refl)
    then show ?thesis unfolding c .
  qed
qed

lemma ceiling_decimalValue_le:
  assumes dd: "list_all isDecimalDigit ds" and df: "list_all isDecimalDigit fs"
  shows "nat \<lceil>decimalValue ds fs\<rceil> \<le> 10 ^ length ds"
proof -
  have "digitsValue 10 ds < 10 ^ length ds" by (rule digitsValue_less [OF dd])
  then show ?thesis using ceiling_decimalValue [OF df, of ds] by simp
qed

lemma advisedWait_exact:
  assumes dd: "list_all isDecimalDigit ds" and df: "list_all isDecimalDigit fs"
    and l1: "length ds \<le> 12" and l2: "length ds + length fs \<le> 15"
  shows "advisedWait ds fs = Some (spec_advised_wait ds fs)"
proof -
  define c where "c = nat \<lceil>decimalValue ds fs\<rceil>"
  have "(10::nat) ^ length ds \<le> 10 ^ 12" using l1 by (intro power_increasing) simp_all
  with ceiling_decimalValue_le [OF dd df] have c12: "c \<le> 10 ^ 12" unfolding c_def by linarith
  have a: "c * 1000 < 2 ^ 53" using c12 by simp
  have b: "c * 1000 + 3000 < 2 ^ 53" using c12 by simp
  have "advisedWait ds fs = Some (c * 1000 + 3000)"
    using a b by (simp add: advisedWait_def ceilParseFloat_exact [OF assms] toDouble_def flip: c_def)
  then show ?thesis by (simp add: spec_advised_wait_def c_def algebra_simps)
qed

lemma matchRetryAt_digits:
  assumes "matchRetryAt s = Some (ds, fs)"
  shows "ds \<noteq> [] \<and> list_all isDecimalDigit ds \<and> list_all isDecimalDigit fs"
proof -
  have t: "\<And>xs. list_all isDecimalDigit (takeWhile isDecimalDigit xs)"
    by (auto simp: list_all_iff dest: set_takeWhileD)
  show ?thesis
    using assms t
    by (auto simp: matchRetryAt_def Let_def split: if_splits list.splits)
qed

lemma matchRetry_digits:
  "matchRetry s = Some (ds, fs) \<Longrightarrow>
     ds \<noteq> [] \<and> list_all isDecimalDigit ds \<and> list_all isDecimalDigit fs"
proof (induction s)
  case Nil
  then show ?case by simp
next
  case (Cons c cs)
  show ?case
  proof (cases "matchRetryAt (c # cs)")
    case None
    with Cons show ?thesis by simp
  next
    case (Some m)
    with Cons.prems have "matchRetryAt (c # cs) = Some (ds, fs)" by simp
    then show ?thesis by (rule matchRetryAt_digits)
  qed
qed

lemma matchRetry_found:
  "matchRetry s = Some m \<Longrightarrow> \<exists>before rest. s = before @ rest \<and> matchRetryAt rest = Some m"
proof (induction s)
  case Nil
  then show ?case by simp
next
  case (Cons c cs)
  show ?case
  proof (cases "matchRetryAt (c # cs)")
    case None
    with Cons.prems have "matchRetry cs = Some m" by simp
    from Cons.IH [OF this] obtain before rest where "cs = before @ rest" "matchRetryAt rest = Some m"
      by blast
    then have "c # cs = (c # before) @ rest \<and> matchRetryAt rest = Some m" by simp
    then show ?thesis by blast
  next
    case (Some m')
    with Cons.prems have "c # cs = [] @ (c # cs) \<and> matchRetryAt (c # cs) = Some m" by simp
    then show ?thesis by blast
  qed
qed

section \<open>The retry loop\<close>

lemma retryLoop_success:
  assumes "attempt < MAX_RETRIES"
    and "ai (calls w) (batchRequest options si cnt pc ss) = Json scs sm"
  shows "retryLoop ai options si cnt pc ss attempt w =
           (Inr (Batch (case scs of None \<Rightarrow> [] | Some l \<Rightarrow> l) (case sm of None \<Rightarrow> [] | Some t \<Rightarrow> t)),
            w\<lparr>calls := calls w + 1,
              events := events w @ [Requested (batchRequest options si cnt pc ss)]\<rparr>)"
  using assms by (subst retryLoop.simps) (simp add: generateBatch_def ask_def)

lemma retryLoop_retry:
  assumes "attempt + 1 < MAX_RETRIES"
    and "ai (calls w) (batchRequest options si cnt pc ss) = Threw e"
    and "isQuota (errorString e) \<or> isOverloaded (errorString e)"
  shows "retryLoop ai options si cnt pc ss attempt w =
           retryLoop ai options si cnt pc ss (attempt + 1)
             (emit [Progress (fst (retryWait (errorString e) (attempt + 1))),
                    delayed (snd (retryWait (errorString e) (attempt + 1)))]
                (w\<lparr>calls := calls w + 1,
                   events := events w @ [Requested (batchRequest options si cnt pc ss)]\<rparr>))"
  using assms
  by (subst retryLoop.simps) (auto simp: generateBatch_def ask_def split: prod.splits)

lemma retryLoop_give_up:
  assumes "attempt < MAX_RETRIES"
    and "ai (calls w) (batchRequest options si cnt pc ss) = Threw e"
    and "\<not> ((isQuota (errorString e) \<or> isOverloaded (errorString e)) \<and> attempt + 1 < MAX_RETRIES)"
  shows "retryLoop ai options si cnt pc ss attempt w =
           (Inl e, w\<lparr>calls := calls w + 1,
                     events := events w @ [Requested (batchRequest options si cnt pc ss)]\<rparr>)"
  using assms
  by (subst retryLoop.simps) (auto simp: generateBatch_def ask_def split: prod.splits)

lemma matchRetryAt_literal:
  assumes "ds \<noteq> []" and "list_all isDecimalDigit ds"
  shows "matchRetryAt (S ''retry in '' @ ds @ S ''s'' @ rest) = Some (ds, [])"
proof -
  have nd: "\<not> isDecimalDigit 115" by (simp add: isDecimalDigit_def)
  have t: "takeWhile isDecimalDigit (ds @ 115 # rest) = ds"
    using assms(2) nd by (induction ds) auto
  have d: "dropWhile isDecimalDigit (ds @ 115 # rest) = 115 # rest"
    using assms(2) nd by (induction ds) auto
  show ?thesis
    using assms(1) t d by (simp add: matchRetryAt_def lowerAscii_def Let_def)
qed

lemmas classify_eval = errorString_def orEmpty_def isQuota_def isOverloaded_def

lemma overloaded_error_class:
  "isOverloaded (errorString overloaded_error)" "\<not> isQuota (errorString overloaded_error)"
  by (simp_all add: classify_eval overloaded_error_def)

lemma overloaded_error_no_advice: "matchRetry (errorString overloaded_error) = None"
  by (simp add: errorString_def orEmpty_def overloaded_error_def matchRetryAt_def lowerAscii_def)

lemma advised_error_class: "isQuota (errorString advised_error)"
  by (simp add: classify_eval advised_error_def)

lemma advised_error_advice: "matchRetry (errorString advised_error) = Some (S ''12'', [])"
  by (simp add: errorString_def orEmpty_def advised_error_def matchRetryAt_def lowerAscii_def isDecimalDigit_def)

lemma quota_error_class: "isQuota (errorString quota_error)"
  by (simp add: classify_eval quota_error_def)

lemma quota_error_no_advice: "matchRetry (errorString quota_error) = None"
  by (simp add: errorString_def orEmpty_def quota_error_def matchRetryAt_def lowerAscii_def)

lemma fatal_error_class:
  "\<not> isQuota (errorString fatal_error)" "\<not> isOverloaded (errorString fatal_error)"
  by (simp_all add: classify_eval fatal_error_def)

lemma fractional_error_class: "isQuota (errorString fractional_error)"
  by (simp add: classify_eval fractional_error_def)

lemma fractional_error_advice:
  "matchRetry (errorString fractional_error) = Some (S ''2'', S ''5'')"
  by (simp add: errorString_def orEmpty_def fractional_error_def matchRetryAt_def lowerAscii_def
        isDecimalDigit_def)

lemma long_advice_error_class: "isQuota (errorString long_advice_error)"
  by (simp add: classify_eval long_advice_error_def)

lemma long_advice_error_advice:
  "matchRetry (errorString long_advice_error) = Some (S ''12'', S ''00000000000000001'')"
  by (simp add: errorString_def orEmpty_def long_advice_error_def matchRetryAt_def lowerAscii_def
        isDecimalDigit_def)

lemma capital_error_class:
  "\<not> isQuota (errorString capital_error)" "\<not> isOverloaded (errorString capital_error)"
  by (simp_all add: classify_eval capital_error_def)

lemma capital_error_spec_class: "spec_classified (errorString capital_error)"
  by (simp add: spec_classified_def includesCI_def errorString_def orEmpty_def capital_error_def
        lowerAscii_def)

lemma bitLength_12: "bitLength 12 = 4"
  by (simp add: bitLength.simps)

lemma long_advice_wait: "advisedWait (S ''12'') (S ''00000000000000001'') = Some 15000"
  by (simp add: advisedWait_def ceilParseFloat_def digitsValue_def digitVal_def Let_def
        bitLength_12 roundHalfEven_def toDouble_def)

lemma long_advice_spec_wait: "spec_advised_wait (S ''12'') (S ''00000000000000001'') = 16000"
proof -
  have "list_all isDecimalDigit (S ''00000000000000001'')" by (simp add: isDecimalDigit_def)
  from ceiling_decimalValue [OF this, of "S ''12''"]
  show ?thesis by (simp add: spec_advised_wait_def digitsValue_def digitVal_def)
qed

lemma retryWait_cases:
  "snd (retryWait errorText attempt) =
     (case matchRetry errorText of
        Some (ds, fs) \<Rightarrow> advisedWait ds fs
      | None \<Rightarrow> if isQuota errorText then Some (attempt * 20 * 1000)
                else Some (5 * 2 ^ (attempt - 1) * 1000))"
  by (simp add: retryWait_def Let_def split: option.splits prod.splits)

text \<open>
  C5 on the code. Let the call number \<open>attempt + 1\<close> of a batch fail with the error \<open>e\<close>,
  where \<open>attempt + 1\<close> is at most 9. If the error text holds one of the substrings
  "429", "quota", "RESOURCE_EXHAUSTED", "503", "overloaded", in this very case, the loop
  records the progress message, waits and goes on to the next attempt. When the text holds
  "retry in N s" and \<open>N\<close> is written with at most 15 digits, at most 12 of them before
  the point, the wait is \<open>ceil(N) + 3\<close> seconds, \<open>ceil\<close> being the ceiling of the decimal
  number \<open>N\<close> itself; for every \<open>N\<close> it is \<open>Math.ceil\<close> of the double nearest to \<open>N\<close>,
  times 1000 and plus 3000 in doubles. Else it is 20 seconds times the attempt number for
  a quota-style error, else \<open>5 * 2 ^ (attempt number - 1)\<close> seconds. If the text holds
  none of the substrings, the loop ends at once with \<open>e\<close>, without wait and without retry.
\<close>

theorem retry_wait_policy:
  assumes "attempt + 1 < MAX_RETRIES"
    and "ai (calls w) (batchRequest options si cnt pc ss) = Threw e"
  shows
    "(isQuota (errorString e) \<or> isOverloaded (errorString e) \<longrightarrow>
        retryLoop ai options si cnt pc ss attempt w =
          retryLoop ai options si cnt pc ss (attempt + 1)
            (emit [Progress (fst (retryWait (errorString e) (attempt + 1))),
                   delayed (snd (retryWait (errorString e) (attempt + 1)))]
               (w\<lparr>calls := calls w + 1,
                  events := events w @ [Requested (batchRequest options si cnt pc ss)]\<rparr>)))
     \<and> (matchRetry (errorString e) = Some (ds, fs) \<and> length ds \<le> 12 \<and> length ds + length fs \<le> 15 \<longrightarrow>
          delayed (snd (retryWait (errorString e) (attempt + 1))) =
            Delayed ((nat \<lceil>decimalValue ds fs\<rceil> + 3) * 1000))
     \<and> (matchRetry (errorString e) = Some (ds, fs) \<longrightarrow>
          snd (retryWait (errorString e) (attempt + 1)) = advisedWait ds fs)
     \<and> (matchRetry (errorString e) = None \<and> isQuota (errorString e) \<longrightarrow>
          delayed (snd (retryWait (errorString e) (attempt + 1))) = Delayed ((attempt + 1) * 20 * 1000))
     \<and> (matchRetry (errorString e) = None \<and> \<not> isQuota (errorString e) \<longrightarrow>
          delayed (snd (retryWait (errorString e) (attempt + 1))) = Delayed (5 * 2 ^ attempt * 1000))
     \<and> (\<not> (isQuota (errorString e) \<or> isOverloaded (errorString e)) \<longrightarrow>
          retryLoop ai options si cnt pc ss attempt w =
            (Inl e, w\<lparr>calls := calls w + 1,
                      events := events w @ [Requested (batchRequest options si cnt pc ss)]\<rparr>))"
proof -
  have "isQuota (errorString e) \<or> isOverloaded (errorString e) \<longrightarrow>
        retryLoop ai options si cnt pc ss attempt w =
          retryLoop ai options si cnt pc ss (attempt + 1)
            (emit [Progress (fst (retryWait (errorString e) (attempt + 1))),
                   delayed (snd (retryWait (errorString e) (attempt + 1)))]
               (w\<lparr>calls := calls w + 1,
                  events := events w @ [Requested (batchRequest options si cnt pc ss)]\<rparr>))"
    using retryLoop_retry [where ai = ai and w = w and e = e and attempt = attempt] assms by blast
  moreover have "matchRetry (errorString e) = Some (ds, fs) \<and> length ds \<le> 12
        \<and> length ds + length fs \<le> 15 \<longrightarrow>
          delayed (snd (retryWait (errorString e) (attempt + 1))) =
            Delayed ((nat \<lceil>decimalValue ds fs\<rceil> + 3) * 1000)"
  proof (intro impI, elim conjE)
    assume m: "matchRetry (errorString e) = Some (ds, fs)"
      and l: "length ds \<le> 12" "length ds + length fs \<le> 15"
    from matchRetry_digits [OF m] have d: "list_all isDecimalDigit ds" "list_all isDecimalDigit fs"
      by simp_all
    show "delayed (snd (retryWait (errorString e) (attempt + 1))) =
            Delayed ((nat \<lceil>decimalValue ds fs\<rceil> + 3) * 1000)"
      by (simp add: retryWait_cases m advisedWait_exact [OF d l] spec_advised_wait_def delayed_def)
  qed
  moreover have "matchRetry (errorString e) = Some (ds, fs) \<longrightarrow>
          snd (retryWait (errorString e) (attempt + 1)) = advisedWait ds fs"
    by (simp add: retryWait_cases)
  moreover have "matchRetry (errorString e) = None \<and> isQuota (errorString e) \<longrightarrow>
          delayed (snd (retryWait (errorString e) (attempt + 1))) = Delayed ((attempt + 1) * 20 * 1000)"
    by (simp add: retryWait_cases delayed_def)
  moreover have "matchRetry (errorString e) = None \<and> \<not> isQuota (errorString e) \<longrightarrow>
          delayed (snd (retryWait (errorString e) (attempt + 1))) = Delayed (5 * 2 ^ attempt * 1000)"
    by (simp add: retryWait_cases delayed_def)
  moreover have "\<not> (isQuota (errorString e) \<or> isOverloaded (errorString e)) \<longrightarrow>
          retryLoop ai options si cnt pc ss attempt w =
            (Inl e, w\<lparr>calls := calls w + 1,
                      events := events w @ [Requested (batchRequest options si cnt pc ss)]\<rparr>)"
    using retryLoop_give_up [where ai = ai and w = w and e = e and attempt = attempt] assms by simp
  ultimately show ?thesis by blast
qed

text \<open>First failures with an advised wait of 12 s (15 s of wait) and of 2.5 s (6 s of
  wait), a third quota failure, a fourth overload failure, and a failure of neither style.\<close>

theorem retry_wait_policy_witness:
  "retryLoop (\<lambda>k req. Threw advised_error) sample_options 1 10 [] [] 0 start =
     retryLoop (\<lambda>k req. Threw advised_error) sample_options 1 10 [] [] 1
       \<lparr>calls = 1,
        events = [Requested (batchRequest sample_options 1 10 [] []),
                  Progress (QuotaAdvised (S ''12'') [] (Some 15000)), Delayed 15000]\<rparr>
   \<and> retryLoop (\<lambda>k req. Threw fractional_error) sample_options 1 10 [] [] 0 start =
     retryLoop (\<lambda>k req. Threw fractional_error) sample_options 1 10 [] [] 1
       \<lparr>calls = 1,
        events = [Requested (batchRequest sample_options 1 10 [] []),
                  Progress (QuotaAdvised (S ''2'') (S ''5'') (Some 6000)), Delayed 6000]\<rparr>
   \<and> delayed (snd (retryWait (errorString quota_error) 3)) = Delayed 60000
   \<and> delayed (snd (retryWait (errorString overloaded_error) 4)) = Delayed 40000
   \<and> retryLoop (\<lambda>k req. Threw fatal_error) sample_options 1 10 [] [] 0 start =
       (Inl fatal_error, \<lparr>calls = 1, events = [Requested (batchRequest sample_options 1 10 [] [])]\<rparr>)"
proof -
  have a: "(0::nat) + 1 < MAX_RETRIES" "(2::nat) + 1 < MAX_RETRIES" "(3::nat) + 1 < MAX_RETRIES"
    by (simp_all add: MAX_RETRIES_def)
  have c12: "nat \<lceil>decimalValue (S ''12'') []\<rceil> = 12"
    by (simp add: decimalValue_def digitsValue_def digitVal_def)
  have c25: "nat \<lceil>decimalValue (S ''2'') (S ''5'')\<rceil> = 3"
    using ceiling_decimalValue [of "S ''5''" "S ''2''"]
    by (simp add: digitsValue_def digitVal_def isDecimalDigit_def)
  have f12: "fst (retryWait (errorString advised_error) 1) =
               QuotaAdvised (S ''12'') [] (snd (retryWait (errorString advised_error) 1))"
    by (simp add: retryWait_def advised_error_advice Let_def)
  have f25: "fst (retryWait (errorString fractional_error) 1) =
               QuotaAdvised (S ''2'') (S ''5'') (snd (retryWait (errorString fractional_error) 1))"
    by (simp add: retryWait_def fractional_error_advice Let_def)
  have d: "\<And>x n. (delayed x = Delayed n) = (x = Some n)"
    by (simp add: delayed_def split: option.splits)
  have d2: "\<And>n. delayed (Some n) = Delayed n"
    by (simp add: delayed_def)
  show ?thesis
    using retry_wait_policy [OF a(1), of "\<lambda>k req. Threw advised_error" start sample_options 1 10 "[]" "[]"
        advised_error "S ''12''" "[]"]
      retry_wait_policy [OF a(1), of "\<lambda>k req. Threw fractional_error" start sample_options 1 10 "[]" "[]"
        fractional_error "S ''2''" "S ''5''"]
      retry_wait_policy [OF a(2), of "\<lambda>k req. Threw quota_error" start sample_options 1 10 "[]" "[]" quota_error]
      retry_wait_policy [OF a(3), of "\<lambda>k req. Threw overloaded_error" start sample_options 1 10 "[]" "[]" overloaded_error]
      retry_wait_policy [OF a(1), of "\<lambda>k req. Threw fatal_error" start sample_options 1 10 "[]" "[]" fatal_error]
      advised_error_class advised_error_advice fractional_error_class fractional_error_advice
      quota_error_class quota_error_no_advice
      overloaded_error_class overloaded_error_no_advice fatal_error_class c12 c25 f12 f25
    by (simp add: start_def emit_def d d2)
qed

text \<open>
  C5 as stated fails in two ways. For "retry in 12.00000000000000001s" the wait of the
  specification is \<open>ceil(N) + 3 = 16\<close> seconds, and the code waits 15 seconds: \<open>parseFloat\<close>
  rounds \<open>N\<close> to the double 12. And the error text "Quota exceeded for this project.
  Please try again later." is quota-style for a scan without regard to case, as section
  4.4 of the specification classifies, while \<open>includes('quota')\<close> does not find "Quota":
  the code raises the error at once, without wait and without retry.
\<close>

theorem retry_wait_policy_counterexample:
  "matchRetry (errorString long_advice_error) = Some (S ''12'', S ''00000000000000001'')
   \<and> spec_advised_wait (S ''12'') (S ''00000000000000001'') = 16000
   \<and> retryLoop (\<lambda>k req. Threw long_advice_error) sample_options 1 10 [] [] 0 start =
       retryLoop (\<lambda>k req. Threw long_advice_error) sample_options 1 10 [] [] 1
         \<lparr>calls = 1,
          events = [Requested (batchRequest sample_options 1 10 [] []),
                    Progress (QuotaAdvised (S ''12'') (S ''00000000000000001'') (Some 15000)),
                    Delayed 15000]\<rparr>
   \<and> spec_classified (errorString capital_error)
   \<and> retryLoop (\<lambda>k req. Threw capital_error) sample_options 1 10 [] [] 0 start =
       (Inl capital_error, \<lparr>calls = 1, events = [Requested (batchRequest sample_options 1 10 [] [])]\<rparr>)"
proof -
  have a: "(0::nat) + 1 < MAX_RETRIES" "(0::nat) < MAX_RETRIES"
    by (simp_all add: MAX_RETRIES_def)
  have w: "retryWait (errorString long_advice_error) (0 + 1) =
             (QuotaAdvised (S ''12'') (S ''00000000000000001'') (Some 15000), Some 15000)"
    using long_advice_error_advice long_advice_wait by (simp add: retryWait_def Let_def)
  have 1: "retryLoop (\<lambda>k req. Threw long_advice_error) sample_options 1 10 [] [] 0 start =
       retryLoop (\<lambda>k req. Threw long_advice_error) sample_options 1 10 [] [] 1
         \<lparr>calls = 1,
          events = [Requested (batchRequest sample_options 1 10 [] []),
                    Progress (QuotaAdvised (S ''12'') (S ''00000000000000001'') (Some 15000)),
                    Delayed 15000]\<rparr>"
    using retryLoop_retry [where ai = "\<lambda>k req. Threw long_advice_error" and w = start
        and e = long_advice_error and attempt = 0 and options = sample_options and si = 1
        and cnt = 10 and pc = "[]" and ss = "[]", OF a(1)] long_advice_error_class
    unfolding w by (simp add: start_def emit_def delayed_def)
  have 2: "retryLoop (\<lambda>k req. Threw capital_error) sample_options 1 10 [] [] 0 start =
       (Inl capital_error, \<lparr>calls = 1, events = [Requested (batchRequest sample_options 1 10 [] [])]\<rparr>)"
    using retryLoop_give_up [where ai = "\<lambda>k req. Threw capital_error" and w = start
        and e = capital_error and attempt = 0 and options = sample_options and si = 1
        and cnt = 10 and pc = "[]" and ss = "[]", OF a(2)] capital_error_class
    by (simp add: start_def)
  show ?thesis
    using long_advice_error_advice long_advice_spec_wait 1 capital_error_spec_class 2 by blast
qed

text \<open>When every call fails with a quota-style or overload-style error, the loop ends
  after the call that brings the counter to \<open>MAX_RETRIES\<close>, with the error of that call.\<close>

lemma retryLoop_exhausted:
  assumes "\<forall>k. \<exists>e. ai k (batchRequest options si cnt pc ss) = Threw e
                    \<and> (isQuota (errorString e) \<or> isOverloaded (errorString e))"
  shows "attempt < MAX_RETRIES \<Longrightarrow>
         \<exists>w'. retryLoop ai options si cnt pc ss attempt w =
                 (Inl (case ai (calls w + (MAX_RETRIES - 1 - attempt)) (batchRequest options si cnt pc ss) of
                         Threw e \<Rightarrow> e | _ \<Rightarrow> Error []), w')
              \<and> calls w' = calls w + (MAX_RETRIES - attempt)"
proof (induction "MAX_RETRIES - 1 - attempt" arbitrary: attempt w)
  case 0
  then have last: "attempt + 1 = MAX_RETRIES" by simp
  from assms obtain e where e: "ai (calls w) (batchRequest options si cnt pc ss) = Threw e" by blast
  have "retryLoop ai options si cnt pc ss attempt w =
           (Inl e, w\<lparr>calls := calls w + 1,
                     events := events w @ [Requested (batchRequest options si cnt pc ss)]\<rparr>)"
    using retryLoop_give_up [where ai = ai and w = w and e = e and attempt = attempt] "0.prems" e last
    by simp
  with 0 last e show ?case by simp
next
  case (Suc d)
  then have more: "attempt + 1 < MAX_RETRIES" by simp
  from assms obtain e where e: "ai (calls w) (batchRequest options si cnt pc ss) = Threw e"
    and c: "isQuota (errorString e) \<or> isOverloaded (errorString e)" by blast
  let ?w1 = "emit [Progress (fst (retryWait (errorString e) (attempt + 1))),
                    delayed (snd (retryWait (errorString e) (attempt + 1)))]
                (w\<lparr>calls := calls w + 1,
                   events := events w @ [Requested (batchRequest options si cnt pc ss)]\<rparr>)"
  have step: "retryLoop ai options si cnt pc ss attempt w =
                retryLoop ai options si cnt pc ss (attempt + 1) ?w1"
    using retryLoop_retry [where ai = ai and w = w and e = e and attempt = attempt] more e c
    by blast
  have d: "d = MAX_RETRIES - 1 - (attempt + 1)" using Suc.hyps(2) by simp
  from Suc.hyps(1) [OF d more, of ?w1] obtain w' where
    r: "retryLoop ai options si cnt pc ss (attempt + 1) ?w1 =
          (Inl (case ai (calls ?w1 + (MAX_RETRIES - 1 - (attempt + 1))) (batchRequest options si cnt pc ss) of
                  Threw e \<Rightarrow> e | _ \<Rightarrow> Error []), w')"
    and k: "calls w' = calls ?w1 + (MAX_RETRIES - (attempt + 1))" by blast
  have c1: "calls ?w1 = calls w + 1" by (simp add: emit_def)
  have "calls ?w1 + (MAX_RETRIES - 1 - (attempt + 1)) = calls w + (MAX_RETRIES - 1 - attempt)"
    using more c1 by simp
  moreover have "calls ?w1 + (MAX_RETRIES - (attempt + 1)) = calls w + (MAX_RETRIES - attempt)"
    using more c1 by simp
  ultimately show ?case using step r k by simp
qed

section \<open>Ten failures in a row\<close>

lemma busy_retry:
  "attempt + 1 < MAX_RETRIES \<Longrightarrow>
     retryLoop busy options si cnt pc ss attempt w =
       retryLoop busy options si cnt pc ss (attempt + 1)
         (emit [Progress (ServerBusy (5000 * 2 ^ attempt)), Delayed (5000 * 2 ^ attempt)]
            (w\<lparr>calls := calls w + 1,
               events := events w @ [Requested (batchRequest options si cnt pc ss)]\<rparr>))"
  using retryLoop_retry [where ai = busy and w = w and e = overloaded_error and attempt = attempt
      and options = options and si = si and cnt = cnt and pc = pc and ss = ss]
    overloaded_error_class overloaded_error_no_advice
  by (simp add: busy_def retryWait_def Let_def delayed_def)

lemma busy_give_up:
  "attempt + 1 = MAX_RETRIES \<Longrightarrow>
     retryLoop busy options si cnt pc ss attempt w =
       (Inl overloaded_error,
        w\<lparr>calls := calls w + 1,
          events := events w @ [Requested (batchRequest options si cnt pc ss)]\<rparr>)"
  using retryLoop_give_up [where ai = busy and w = w and e = overloaded_error and attempt = attempt
      and options = options and si = si and cnt = cnt and pc = pc and ss = ss]
  by (simp add: busy_def)

lemma waits_append: "waits (xs @ ys) = waits xs @ waits ys"
  by (induction xs rule: waits.induct) simp_all

text \<open>
  C4 on the code. With a service whose every call fails as overloaded,
  \<open>generateBatchWithRetry\<close> makes ten calls with nine waits between them and then raises
  the error of the tenth call, which is not the error "could not connect after repeated
  attempts" of line 560: the test \<open>attempt < MAX_RETRIES\<close> in the \<open>catch\<close> block sends the
  tenth failure to \<open>throw error\<close>, and the statement after the loop is never reached.
\<close>

theorem tenth_failure_rethrown:
  "fst (generateBatchWithRetry busy sample_options 1 10 [] [] start) = Inl overloaded_error
   \<and> overloaded_error \<noteq> Error msg_could_not_connect
   \<and> isOverloaded (errorString overloaded_error)
   \<and> calls (snd (generateBatchWithRetry busy sample_options 1 10 [] [] start)) = 10
   \<and> waits (events (snd (generateBatchWithRetry busy sample_options 1 10 [] [] start))) =
       [5000, 10000, 20000, 40000, 80000, 160000, 320000, 640000, 1280000]"
proof -
  have r: "generateBatchWithRetry busy sample_options 1 10 [] [] start =
             retryLoop busy sample_options 1 10 [] [] 0 start"
    by (simp add: generateBatchWithRetry_def)
  have n: "overloaded_error \<noteq> Error msg_could_not_connect"
    by (simp add: overloaded_error_def Error_def msg_could_not_connect_def)
  show ?thesis
    unfolding r using n overloaded_error_class(1)
    by (simp add: busy_retry busy_give_up MAX_RETRIES_def emit_def start_def waits_append)
qed

section \<open>A service that sends fewer scenes than asked\<close>

lemma terse_answer:
  "generateBatchWithRetry terse options si cnt pc ss w =
     (Inr (Batch [misnumbered, misnumbered] (S ''A story'')),
      w\<lparr>calls := calls w + 1,
        events := events w @ [Requested (batchRequest options si cnt pc ss)]\<rparr>)"
  unfolding generateBatchWithRetry_def
  using retryLoop_success [where ai = terse and attempt = 0 and w = w and options = options
      and si = si and cnt = cnt and pc = pc and ss = ss
      and scs = "Some [misnumbered, misnumbered]" and sm = "Some (S ''A story'')"]
  by (simp add: terse_def MAX_RETRIES_def)

text \<open>
  C1 as stated fails: for 23 scenes and a service that sends two scenes per request, the
  three requests ask for 10, 10 and 10 scenes, and the script has six scenes, numbered
  1, 2, 11, 12, 21, 22.
\<close>

theorem generateScript_short_answers_counterexample:
  "targetCountOf (promptCount sample_options) = 23
   \<and> (case generateScript terse sample_options (S ''AIzaSyExample'') start of
        (Inl err, w') \<Rightarrow> False
      | (Inr script, w') \<Rightarrow>
          map scene_number (scenes script) = [1, 2, 11, 12, 21, 22]
          \<and> batchRequests (events w') = [(1, 10), (11, 10), (21, 10)])"
proof -
  have t: "targetCountOf (promptCount sample_options) = 23"
    by (simp add: targetCountOf_def sample_options_def)
  have T: "nat (- ((- 23) div BATCH_SIZE)) = 3" by (simp add: BATCH_SIZE_def)
  have c: "\<And>si. correctScenes si [misnumbered, misnumbered] =
              [misnumbered\<lparr>scene := Some si\<rparr>, misnumbered\<lparr>scene := Some (si + 1)\<rparr>]"
    by (simp add: correctScenes_def mapIndexed_def)
  obtain x1 x2 where eq: "batchLoop terse sample_options 23 3 0 [] [] [] start = (x1, x2)"
    by (cases "batchLoop terse sample_options 23 3 0 [] [] [] start")
  have b1: "x1 = Inr ([misnumbered\<lparr>scene := Some 1\<rparr>, misnumbered\<lparr>scene := Some 2\<rparr>,
                     misnumbered\<lparr>scene := Some 11\<rparr>, misnumbered\<lparr>scene := Some 12\<rparr>,
                     misnumbered\<lparr>scene := Some 21\<rparr>, misnumbered\<lparr>scene := Some 22\<rparr>],
                    S ''A story'')"
    and b2: "batchRequests (events x2) = [(1, 10), (11, 10), (21, 10)]"
    using eq
    by (auto simp: batchLoop.simps terse_answer c Let_def BATCH_SIZE_def emit_def start_def
          batchRequests_Cons_batchRequest batchRequests_append)
  have "generateScript terse sample_options (S ''AIzaSyExample'') start =
          (Inr \<lparr>story_summary = S ''A story'',
                scenes = mapJsonToScenes
                  [misnumbered\<lparr>scene := Some 1\<rparr>, misnumbered\<lparr>scene := Some 2\<rparr>,
                   misnumbered\<lparr>scene := Some 11\<rparr>, misnumbered\<lparr>scene := Some 12\<rparr>,
                   misnumbered\<lparr>scene := Some 21\<rparr>, misnumbered\<lparr>scene := Some 22\<rparr>]\<rparr>,
           x2)"
    by (simp add: generateScript_def t T eq b1)
  then show ?thesis
    using t b2
    by (simp add: mapJsonToScenes_def mapIndexed_def scene_number_sceneOf sceneNumberOf_def)
qed

section \<open>The count of scenes\<close>

text \<open>The prompts of the batched generation do not hold \<open>promptCount\<close>.\<close>

lemma generateBatch_ignores_count:
  "generateBatch ai (options\<lparr>promptCount := c\<rparr>) si cnt pc ss w = generateBatch ai options si cnt pc ss w"
  by (simp add: generateBatch_def batchRequest_def)

lemma retryLoop_ignores_count:
  "retryLoop ai (options\<lparr>promptCount := c\<rparr>) si cnt pc ss attempt w =
     retryLoop ai options si cnt pc ss attempt w"
proof (induction "MAX_RETRIES - attempt" arbitrary: attempt w)
  case 0
  then show ?case
    by (subst retryLoop.simps, subst (2) retryLoop.simps) simp
next
  case (Suc d)
  then have d: "d = MAX_RETRIES - Suc attempt" by simp
  show ?case
    by (subst retryLoop.simps, subst (2) retryLoop.simps)
       (simp add: generateBatch_ignores_count Suc.hyps(1) [OF d] split: prod.splits sum.splits)
qed

lemma generateBatchWithRetry_ignores_count:
  "generateBatchWithRetry ai (options\<lparr>promptCount := c\<rparr>) si cnt pc ss w =
     generateBatchWithRetry ai options si cnt pc ss w"
  by (simp add: generateBatchWithRetry_def retryLoop_ignores_count)

lemma batchLoop_ignores_count:
  "batchLoop ai (options\<lparr>promptCount := c\<rparr>) n T batch allRaw ss pc w =
     batchLoop ai options n T batch allRaw ss pc w"
proof (induction "T - batch" arbitrary: batch allRaw ss pc w)
  case 0
  then show ?case
    by (subst batchLoop.simps, subst (2) batchLoop.simps) simp
next
  case (Suc d)
  then have d: "d = T - Suc batch" by simp
  show ?case
    by (subst batchLoop.simps, subst (2) batchLoop.simps)
       (simp add: generateBatchWithRetry_ignores_count Suc.hyps(1) [OF d] Let_def
          split: prod.splits sum.splits)
qed

lemma bad_count_target: "bad_count c \<Longrightarrow> targetCountOf c = 5"
  by (cases c) (auto simp: targetCountOf_def split: option.splits)

text \<open>
  C10. When \<open>promptCount\<close> is missing, is NaN, is a number \<open>\<le> 0\<close>, or is a string from
  which \<open>parseInt(_, 10)\<close> reads no number or a number \<open>\<le> 0\<close>, the target is 5 scenes and
  \<open>generateScript\<close> of src/App.tsx does, returns and raises exactly what it does for
  \<open>promptCount = 5\<close>.
\<close>

theorem bad_count_runs_as_five:
  assumes "bad_count (promptCount options)"
  shows "targetCountOf (promptCount options) = 5
         \<and> generateScript ai options apiKey w =
             generateScript ai (options\<lparr>promptCount := CountNumber 5\<rparr>) apiKey w"
proof -
  have t: "targetCountOf (promptCount options) = 5" using assms by (rule bad_count_target)
  have "batchLoop ai (options\<lparr>promptCount := CountNumber 5\<rparr>) 5 (nat (- ((- 5) div BATCH_SIZE))) 0 [] [] [] w =
        batchLoop ai options 5 (nat (- ((- 5) div BATCH_SIZE))) 0 [] [] [] w"
    by (rule batchLoop_ignores_count)
  with t show ?thesis by (simp add: generateScript_def targetCountOf_def)
qed

text \<open>The count "abc", with a service that sends what it is asked for: one request for
  5 scenes, and 5 scenes.\<close>

theorem bad_count_runs_as_five_witness:
  "bad_count (CountString (S ''abc''))
   \<and> targetCountOf (CountString (S ''abc'')) = 5
   \<and> generateScript obliging (sample_options\<lparr>promptCount := CountString (S ''abc'')\<rparr>)
        (S ''AIzaSyExample'') start =
      generateScript obliging (sample_options\<lparr>promptCount := CountNumber 5\<rparr>)
        (S ''AIzaSyExample'') start
   \<and> (case generateScript obliging (sample_options\<lparr>promptCount := CountString (S ''abc'')\<rparr>)
              (S ''AIzaSyExample'') start of
        (Inl err, w') \<Rightarrow> False
      | (Inr script, w') \<Rightarrow>
          map scene_number (scenes script) = [1, 2, 3, 4, 5]
          \<and> batchRequests (events w') = [(1, 5)])"
proof -
  have p: "parseInt (S ''abc'') 10 = None" by (simp add: parseInt_eval)
  have bad: "bad_count (promptCount (sample_options\<lparr>promptCount := CountString (S ''abc'')\<rparr>))"
    using p by simp
  have k: "S ''AIzaSyExample'' \<noteq> []" by simp
  have five: "targetCountOf (promptCount (sample_options\<lparr>promptCount := CountNumber 5\<rparr>)) = 5"
    by (simp add: targetCountOf_def)
  have u: "map (\<lambda>i. 1 + int i) [0..<nat 5] = [1, 2, 3, 4, 5]"
    by (simp add: upt_conv_Cons)
  have b: "map (\<lambda>b. (int b * 10 + 1, min 10 (5 - int b * 10))) [0..<nat (- ((- 5) div 10))] = [(1, 5)]"
    by (simp add: upt_conv_Cons)
  have e: "batchRequests (events start) = []" by (simp add: start_def)
  show ?thesis
    using bad_count_runs_as_five [OF bad, of obliging "S ''AIzaSyExample''" start]
      generateScript_in_full [OF k answers_in_full_obliging five, of start] p
    unfolding u b e by (simp split: prod.splits sum.splits)
qed

text \<open>
  C10 as stated fails: the count "12abc" is not numeric, yet \<open>parseInt\<close> reads 12 from it,
  and \<open>generateScript\<close> targets 12 scenes in two requests, not the 5 scenes in one request
  of \<open>promptCount = 5\<close>.
\<close>

theorem bad_count_string_prefix_counterexample:
  "spec_bad_count (CountString (S ''12abc''))
   \<and> targetCountOf (CountString (S ''12abc'')) = 12
   \<and> (case generateScript obliging (sample_options\<lparr>promptCount := CountString (S ''12abc'')\<rparr>)
              (S ''AIzaSyExample'') start of
        (Inl err, w') \<Rightarrow> False
      | (Inr script, w') \<Rightarrow>
          map scene_number (scenes script) = [1, 2, 3, 4, 5, 6, 7, 8, 9, 10, 11, 12]
          \<and> batchRequests (events w') = [(1, 10), (11, 2)])
   \<and> (case generateScript obliging (sample_options\<lparr>promptCount := CountNumber 5\<rparr>)
              (S ''AIzaSyExample'') start of
        (Inl err, w') \<Rightarrow> False
      | (Inr script, w') \<Rightarrow>
          map scene_number (scenes script) = [1, 2, 3, 4, 5]
          \<and> batchRequests (events w') = [(1, 5)])"
proof -
  have p: "parseInt (S ''12abc'') 10 = Some 12" by (simp add: parseInt_eval)
  have s: "spec_bad_count (CountString (S ''12abc''))"
    by (simp add: isIntegerLiteral_def stripSign_def isDecimalDigit_def)
  have t: "targetCountOf (CountString (S ''12abc'')) = 12"
    using p by (simp add: targetCountOf_def)
  have k: "S ''AIzaSyExample'' \<noteq> []" by simp
  have twelve: "targetCountOf (promptCount (sample_options\<lparr>promptCount := CountString (S ''12abc'')\<rparr>)) = 12"
    using t by simp
  have five: "targetCountOf (promptCount (sample_options\<lparr>promptCount := CountNumber 5\<rparr>)) = 5"
    by (simp add: targetCountOf_def)
  have u12: "map (\<lambda>i. 1 + int i) [0..<nat 12] = [1, 2, 3, 4, 5, 6, 7, 8, 9, 10, 11, 12]"
    by (simp add: upt_conv_Cons)
  have u5: "map (\<lambda>i. 1 + int i) [0..<nat 5] = [1, 2, 3, 4, 5]"
    by (simp add: upt_conv_Cons)
  have b12: "map (\<lambda>b. (int b * 10 + 1, min 10 (12 - int b * 10))) [0..<nat (- ((- 12) div 10))] =
               [(1, 10), (11, 2)]"
    by (simp add: upt_conv_Cons)
  have b5: "map (\<lambda>b. (int b * 10 + 1, min 10 (5 - int b * 10))) [0..<nat (- ((- 5) div 10))] = [(1, 5)]"
    by (simp add: upt_conv_Cons)
  have e: "batchRequests (events start) = []" by (simp add: start_def)
  show ?thesis
    using generateScript_in_full [OF k answers_in_full_obliging twelve, of start]
      generateScript_in_full [OF k answers_in_full_obliging five, of start] s t
    unfolding u12 u5 b12 b5 e by (simp split: prod.splits sum.splits)
qed

end
